theory Spec2Isabelle
  imports Main "HOL-Library.Multiset" "HOL-Library.Sublist"
begin

section \<open>Strings of the host language\<close>

text \<open>
  A JavaScript string is modelled as a \<^typ>\<open>string\<close>; every \<^typ>\<open>char\<close> stands for the
  code unit of the same number (0 to 255, the Latin-1 range). The case mappings below
  are the restriction of \<^verbatim>\<open>String.prototype.toLowerCase\<close> and of the regular-expression
  \<^verbatim>\<open>Canonicalize\<close> operation to that range.
\<close>

abbreviation (input) BS :: char where "BS \<equiv> CHR 0x5C"
abbreviation (input) NL :: char where "NL \<equiv> CHR 0x0A"

definition asciiUpper :: string where
  "asciiUpper = ''ABCDEFGHIJKLMNOPQRSTUVWXYZ''"

definition asciiLower :: string where
  "asciiLower = ''abcdefghijklmnopqrstuvwxyz''"

definition asciiDigits :: string where
  "asciiDigits = ''0123456789''"

definition latinUpper :: string where
  "latinUpper = [CHR 0xC0, CHR 0xC1, CHR 0xC2, CHR 0xC3, CHR 0xC4, CHR 0xC5, CHR 0xC6, CHR 0xC7, CHR 0xC8, CHR 0xC9, CHR 0xCA, CHR 0xCB, CHR 0xCC, CHR 0xCD, CHR 0xCE, CHR 0xCF, CHR 0xD0, CHR 0xD1, CHR 0xD2, CHR 0xD3, CHR 0xD4, CHR 0xD5, CHR 0xD6, CHR 0xD8, CHR 0xD9, CHR 0xDA, CHR 0xDB, CHR 0xDC, CHR 0xDD, CHR 0xDE]"

definition latinLower :: string where
  "latinLower = [CHR 0xE0, CHR 0xE1, CHR 0xE2, CHR 0xE3, CHR 0xE4, CHR 0xE5, CHR 0xE6, CHR 0xE7, CHR 0xE8, CHR 0xE9, CHR 0xEA, CHR 0xEB, CHR 0xEC, CHR 0xED, CHR 0xEE, CHR 0xEF, CHR 0xF0, CHR 0xF1, CHR 0xF2, CHR 0xF3, CHR 0xF4, CHR 0xF5, CHR 0xF6, CHR 0xF8, CHR 0xF9, CHR 0xFA, CHR 0xFB, CHR 0xFC, CHR 0xFD, CHR 0xFE]"

definition lowerChar :: "char \<Rightarrow> char" where
  "lowerChar c = (case map_of (zip (asciiUpper @ latinUpper) (asciiLower @ latinLower)) c of
      Some d \<Rightarrow> d | None \<Rightarrow> c)"

definition toLowerCase :: "string \<Rightarrow> string" where
  "toLowerCase s = map lowerChar s"

definition canonicalize :: "char \<Rightarrow> char" where
  "canonicalize c = (case map_of (zip (asciiLower @ latinLower) (asciiUpper @ latinUpper)) c of
      Some d \<Rightarrow> d | None \<Rightarrow> c)"

definition isWordChar :: "char \<Rightarrow> bool" where
  "isWordChar c = (c \<in> set (asciiLower @ asciiUpper @ asciiDigits @ ''_''))"

definition isWhiteSpace :: "char \<Rightarrow> bool" where
  "isWhiteSpace c = (c \<in> set [CHR 0x09, CHR 0x0A, CHR 0x0B, CHR 0x0C, CHR 0x0D, CHR 0x20, CHR 0xA0])"

definition isLineTerminator :: "char \<Rightarrow> bool" where
  "isLineTerminator c = (c = CHR 0x0A \<or> c = CHR 0x0D)"

text \<open>\<^verbatim>\<open>haystack.includes(needle)\<close>: the needle occurs as a contiguous substring.\<close>

fun includesStr :: "string \<Rightarrow> string \<Rightarrow> bool" where
  "includesStr [] needle = (needle = [])"
| "includesStr (c # cs) needle = (take (length needle) (c # cs) = needle \<or> includesStr cs needle)"

text \<open>\<^verbatim>\<open>s.trim()\<close>: white space and line terminators removed at both ends.\<close>

definition trim :: "string \<Rightarrow> string" where
  "trim s = rev (dropWhile isWhiteSpace (rev (dropWhile isWhiteSpace s)))"

text \<open>\<^verbatim>\<open>xs.join(sep)\<close>.\<close>

fun join :: "string \<Rightarrow> string list \<Rightarrow> string" where
  "join sep [] = []"
| "join sep [x] = x"
| "join sep (x # y # ys) = x @ sep @ join sep (y # ys)"

text \<open>The decimal rendering of a length inside a template literal.\<close>

fun showNat :: "nat \<Rightarrow> string" where
  "showNat n = (if n < 10 then [asciiDigits ! n]
                else showNat (n div 10) @ [asciiDigits ! (n mod 10)])"

declare showNat.simps [simp del]

section \<open>Exceptions\<close>

text \<open>
  \<^item> \<open>SyntaxError\<close>: raised by \<^verbatim>\<open>new RegExp\<close> on an ill-formed pattern and by
    \<^verbatim>\<open>JSON.parse\<close>;
  \<^item> \<open>TypeError\<close>: a property read on \<^verbatim>\<open>undefined\<close>;
  \<^item> \<open>IOError\<close>: \<^verbatim>\<open>readFileSync\<close> on a file that cannot be read;
  \<^item> \<open>Unmodelled\<close>: the pattern uses regular-expression syntax outside the fragment
    embedded below (groups, alternation, braces, back references, escapes inside a
    character class, letter or digit escapes other than the ones listed). Nothing is
    stated about the program on such patterns.
\<close>

datatype error = SyntaxError | TypeError | IOError | Unmodelled

section \<open>Regular expressions\<close>

text \<open>
  The fragment of ECMAScript patterns (without the \<^verbatim>\<open>u\<close>, \<^verbatim>\<open>m\<close> and \<^verbatim>\<open>s\<close> flags) that the
  program builds: a sequence of assertions and of quantified one-character atoms.
  A class is a list of inclusive ranges; a single member \<open>c\<close> is the range \<open>(c, c)\<close>.
\<close>

datatype cset =
    Dot
  | Lit char
  | Digit bool
  | Word bool
  | Space bool
  | Class bool "(char \<times> char) list"

datatype quant = One | Opt | Star | Plus

datatype assertion = Bol | Eol | WordB | NotWordB

datatype rterm = Assert assertion | Atom cset quant

type_synonym regexp = "rterm list"

datatype pmode = Top | InClass bool "(char \<times> char) list"

text \<open>
  What may follow the term read last: nothing to repeat (\<open>NoAtom\<close>), a quantifier
  (\<open>Fresh\<close>), only the lazy marker \<^verbatim>\<open>?\<close> (\<open>Quantified\<close>), or no quantifier at all
  (\<open>LazyDone\<close>).
\<close>

datatype qstate = NoAtom | Fresh | Quantified | LazyDone

fun requantify :: "quant \<Rightarrow> rterm list \<Rightarrow> rterm list" where
  "requantify q (Atom cs _ # acc) = Atom cs q # acc"
| "requantify q acc = acc"

definition escapeTerm :: "char \<Rightarrow> error + rterm" where
  "escapeTerm e =
    (if e = CHR ''b'' then Inr (Assert WordB)
     else if e = CHR ''B'' then Inr (Assert NotWordB)
     else if e = CHR ''d'' then Inr (Atom (Digit False) One)
     else if e = CHR ''D'' then Inr (Atom (Digit True) One)
     else if e = CHR ''w'' then Inr (Atom (Word False) One)
     else if e = CHR ''W'' then Inr (Atom (Word True) One)
     else if e = CHR ''s'' then Inr (Atom (Space False) One)
     else if e = CHR ''S'' then Inr (Atom (Space True) One)
     else if e = CHR ''n'' then Inr (Atom (Lit (CHR 0x0A)) One)
     else if e = CHR ''t'' then Inr (Atom (Lit (CHR 0x09)) One)
     else if e = CHR ''r'' then Inr (Atom (Lit (CHR 0x0D)) One)
     else if e = CHR ''f'' then Inr (Atom (Lit (CHR 0x0C)) One)
     else if e = CHR ''v'' then Inr (Atom (Lit (CHR 0x0B)) One)
     else if e \<in> set (asciiLower @ asciiUpper @ asciiDigits) then Inl Unmodelled
     else Inr (Atom (Lit e) One))"

definition afterTerm :: "rterm \<Rightarrow> qstate" where
  "afterTerm t = (case t of Assert _ \<Rightarrow> NoAtom | Atom _ _ \<Rightarrow> Fresh)"

fun parseRegExp :: "pmode \<Rightarrow> qstate \<Rightarrow> rterm list \<Rightarrow> string \<Rightarrow> error + regexp" where
  "parseRegExp Top st acc [] = Inr (rev acc)"
| "parseRegExp Top st acc (c # cs) =
    (if c = BS then
       (case cs of
          [] \<Rightarrow> Inl SyntaxError
        | e # cs' \<Rightarrow>
            (case escapeTerm e of
               Inl err \<Rightarrow> Inl err
             | Inr t \<Rightarrow> parseRegExp Top (afterTerm t) (t # acc) cs'))
     else if c = CHR ''^'' then parseRegExp Top NoAtom (Assert Bol # acc) cs
     else if c = CHR ''$'' then parseRegExp Top NoAtom (Assert Eol # acc) cs
     else if c = CHR ''.'' then parseRegExp Top Fresh (Atom Dot One # acc) cs
     else if c = CHR ''*'' then
       (if st = Fresh then parseRegExp Top Quantified (requantify Star acc) cs
        else Inl SyntaxError)
     else if c = CHR ''+'' then
       (if st = Fresh then parseRegExp Top Quantified (requantify Plus acc) cs
        else Inl SyntaxError)
     else if c = CHR ''?'' then
       (if st = Fresh then parseRegExp Top Quantified (requantify Opt acc) cs
        else if st = Quantified then parseRegExp Top LazyDone acc cs
        else Inl SyntaxError)
     else if c = CHR ''['' then
       (case cs of
          [] \<Rightarrow> Inl SyntaxError
        | d # cs' \<Rightarrow>
            if d = CHR ''^'' then parseRegExp (InClass True []) st acc cs'
            else parseRegExp (InClass False []) st acc (d # cs'))
     else if c \<in> set ''(){}|'' then Inl Unmodelled
     else parseRegExp Top Fresh (Atom (Lit c) One # acc) cs)"
| "parseRegExp (InClass neg items) st acc [] = Inl SyntaxError"
| "parseRegExp (InClass neg items) st acc (c # cs) =
    (if c = CHR '']'' then parseRegExp Top Fresh (Atom (Class neg (rev items)) One # acc) cs
     else if c = BS then Inl Unmodelled
     else
       (case cs of
          d # e # cs' \<Rightarrow>
            if d = CHR ''-'' \<and> e \<noteq> CHR '']'' then
              (if e = BS then Inl Unmodelled
               else if (of_char e :: nat) < of_char c then Inl SyntaxError
               else parseRegExp (InClass neg ((c, e) # items)) st acc cs')
            else parseRegExp (InClass neg ((c, c) # items)) st acc (d # e # cs')
        | _ \<Rightarrow> parseRegExp (InClass neg ((c, c) # items)) st acc cs))"

text \<open>\<^verbatim>\<open>new RegExp(source)\<close>: the compiled pattern, or the exception.\<close>

definition newRegExp :: "string \<Rightarrow> error + regexp" where
  "newRegExp source = parseRegExp Top NoAtom [] source"

definition inRange :: "char \<times> char \<Rightarrow> char \<Rightarrow> bool" where
  "inRange r c = ((of_char (fst r) :: nat) \<le> of_char c \<and> (of_char c :: nat) \<le> of_char (snd r))"

text \<open>
  Whether one character is in the set of an atom; \<open>ic\<close> is the \<^verbatim>\<open>i\<close> flag, under which
  two characters are the same when their canonical forms are.
\<close>

fun csetMatches :: "bool \<Rightarrow> cset \<Rightarrow> char \<Rightarrow> bool" where
  "csetMatches ic Dot c = (\<not> isLineTerminator c)"
| "csetMatches ic (Lit a) c = (if ic then canonicalize a = canonicalize c else a = c)"
| "csetMatches ic (Digit neg) c = ((c \<in> set asciiDigits) \<noteq> neg)"
| "csetMatches ic (Word neg) c = (isWordChar c \<noteq> neg)"
| "csetMatches ic (Space neg) c = (isWhiteSpace c \<noteq> neg)"
| "csetMatches ic (Class neg rs) c =
     ((\<exists>r \<in> set rs. inRange r c \<or> (ic \<and> (inRange r (canonicalize c) \<or> inRange r (lowerChar c)))) \<noteq> neg)"

text \<open>
  An assertion looks at the character before the current position (\<open>None\<close> at the start
  of the input) and at the rest of the input.
\<close>

definition wordBefore :: "char option \<Rightarrow> bool" where
  "wordBefore prev = (case prev of None \<Rightarrow> False | Some p \<Rightarrow> isWordChar p)"

definition wordAfter :: "string \<Rightarrow> bool" where
  "wordAfter s = (case s of [] \<Rightarrow> False | c # _ \<Rightarrow> isWordChar c)"

fun assertHolds :: "assertion \<Rightarrow> char option \<Rightarrow> string \<Rightarrow> bool" where
  "assertHolds Bol prev s = (prev = None)"
| "assertHolds Eol prev s = (s = [])"
| "assertHolds WordB prev s = (wordBefore prev \<noteq> wordAfter s)"
| "assertHolds NotWordB prev s = (wordBefore prev = wordAfter s)"

text \<open>
  The backtracking matcher, at one start position: every way of matching is tried,
  the longest repetition first. Only the existence of a match is observed by
  \<^verbatim>\<open>test\<close>, so a lazy quantifier is matched as its greedy counterpart.
\<close>

fun matchHere :: "bool \<Rightarrow> regexp \<Rightarrow> char option \<Rightarrow> string \<Rightarrow> bool" where
  "matchHere ic [] prev s = True"
| "matchHere ic (Assert a # ts) prev s = (assertHolds a prev s \<and> matchHere ic ts prev s)"
| "matchHere ic (Atom cs One # ts) prev [] = False"
| "matchHere ic (Atom cs One # ts) prev (c # s) =
     (csetMatches ic cs c \<and> matchHere ic ts (Some c) s)"
| "matchHere ic (Atom cs Opt # ts) prev [] = matchHere ic ts prev []"
| "matchHere ic (Atom cs Opt # ts) prev (c # s) =
     ((csetMatches ic cs c \<and> matchHere ic ts (Some c) s) \<or> matchHere ic ts prev (c # s))"
| "matchHere ic (Atom cs Star # ts) prev [] = matchHere ic ts prev []"
| "matchHere ic (Atom cs Star # ts) prev (c # s) =
     ((csetMatches ic cs c \<and> matchHere ic (Atom cs Star # ts) (Some c) s)
      \<or> matchHere ic ts prev (c # s))"
| "matchHere ic (Atom cs Plus # ts) prev [] = False"
| "matchHere ic (Atom cs Plus # ts) prev (c # s) =
     (csetMatches ic cs c \<and> matchHere ic (Atom cs Star # ts) (Some c) s)"

text \<open>\<^verbatim>\<open>regex.test(s)\<close> without the global or sticky flag: start positions left to right.\<close>

fun searchFrom :: "bool \<Rightarrow> regexp \<Rightarrow> char option \<Rightarrow> string \<Rightarrow> bool" where
  "searchFrom ic ts prev [] = matchHere ic ts prev []"
| "searchFrom ic ts prev (c # s) = (matchHere ic ts prev (c # s) \<or> searchFrom ic ts (Some c) s)"

definition regexTest :: "bool \<Rightarrow> regexp \<Rightarrow> string \<Rightarrow> bool" where
  "regexTest ic re s = searchFrom ic re None s"

text \<open>\<^verbatim>\<open>xs.some(f)\<close> where \<open>f\<close> may raise: the first exception or the first hit ends the scan.\<close>

fun some :: "('a \<Rightarrow> error + bool) \<Rightarrow> 'a list \<Rightarrow> error + bool" where
  "some f [] = Inr False"
| "some f (x # xs) =
     (case f x of Inl e \<Rightarrow> Inl e | Inr b \<Rightarrow> if b then Inr True else some f xs)"

text \<open>\<^verbatim>\<open>xs.filter(f)\<close> where \<open>f\<close> may raise.\<close>

fun filterE :: "('a \<Rightarrow> error + bool) \<Rightarrow> 'a list \<Rightarrow> error + 'a list" where
  "filterE f [] = Inr []"
| "filterE f (x # xs) =
     (case f x of
        Inl e \<Rightarrow> Inl e
      | Inr b \<Rightarrow> (case filterE f xs of Inl e \<Rightarrow> Inl e | Inr ys \<Rightarrow> Inr (if b then x # ys else ys)))"

section \<open>The pattern matchers of the engine\<close>

text \<open>The three textual replacements of \<^verbatim>\<open>matchesFilePattern\<close>, in the order of the source.\<close>

definition replaceChar :: "char \<Rightarrow> string \<Rightarrow> string \<Rightarrow> string" where
  "replaceChar c rep s = concat (map (\<lambda>x. if x = c then rep else [x]) s)"

fun replaceStarStar :: "string \<Rightarrow> string" where
  "replaceStarStar (c # d # cs) =
     (if c = CHR ''*'' \<and> d = CHR ''*'' then ''.*'' @ replaceStarStar cs
      else c # replaceStarStar (d # cs))"
| "replaceStarStar cs = cs"

definition regexPattern :: "string \<Rightarrow> string" where
  "regexPattern pattern =
     replaceChar (CHR ''?'') ''.''
       (replaceChar (CHR ''*'') ''[^/]*''
         (replaceStarStar
           (replaceChar (CHR ''.'') [BS, CHR ''.''] pattern)))"

definition matchesOnePattern :: "string \<Rightarrow> string \<Rightarrow> error + bool" where
  "matchesOnePattern filePath pattern =
     (case newRegExp (''^'' @ regexPattern pattern @ ''$'') of
        Inl e \<Rightarrow> Inl e
      | Inr regex \<Rightarrow> Inr (regexTest False regex filePath))"

definition matchesFilePattern :: "string \<Rightarrow> string list option \<Rightarrow> error + bool" where
  "matchesFilePattern filePath patterns =
     (case patterns of
        None \<Rightarrow> Inr False
      | Some ps \<Rightarrow> if length ps = 0 then Inr False else some (matchesOnePattern filePath) ps)"

definition matchesOneKeyword :: "string \<Rightarrow> string \<Rightarrow> error + bool" where
  "matchesOneKeyword lowerText keyword =
     (let lowerKeyword = toLowerCase keyword in
      case newRegExp ([BS, CHR ''b''] @ lowerKeyword @ [BS, CHR ''b'']) of
        Inl e \<Rightarrow> Inl e
      | Inr regex \<Rightarrow> Inr (regexTest True regex lowerText))"

definition containsKeywords :: "string \<Rightarrow> string list option \<Rightarrow> error + bool" where
  "containsKeywords text' keywords =
     (case keywords of
        None \<Rightarrow> Inr False
      | Some ks \<Rightarrow>
          if length ks = 0 then Inr False
          else some (matchesOneKeyword (toLowerCase text')) ks)"

definition matchesIntent :: "string \<Rightarrow> string list option \<Rightarrow> bool" where
  "matchesIntent text' patterns =
     (case patterns of
        None \<Rightarrow> False
      | Some ps \<Rightarrow>
          if length ps = 0 then False
          else (\<exists>pattern \<in> set ps. includesStr (toLowerCase text') (toLowerCase pattern)))"

section \<open>Rules, match results and the decision\<close>

text \<open>
  A rule of \<^verbatim>\<open>skill-rules.json\<close> as the engine reads it. A property that may be absent is
  an \<open>option\<close>; an array that is present is truthy even when it is empty.
\<close>

record triggers =
  "keywords" :: "string list option"
  intentPatterns :: "string list option"
  filePatterns :: "string list option"
  excludePatterns :: "string list option"

record skill =
  name :: string
  description :: string
  mode :: string
  priority :: string
  triggers :: "triggers option"

text \<open>
  The object pushed for a matched rule. Its \<^verbatim>\<open>description\<close>, \<^verbatim>\<open>mode\<close> and \<^verbatim>\<open>priority\<close>
  properties carry the prefix \<open>s\<close> here, the plain names being the fields of the rule.
\<close>

record suggestion =
  skillName :: string
  sDescription :: string
  sMode :: string
  sPriority :: string
  score :: nat
  reasons :: "string list"

record analysis =
  suggestions :: "suggestion list"
  blockingSkills :: "suggestion list"

text \<open>\<^verbatim>\<open>skill.triggers?.p\<close>: the property \<open>p\<close> of the triggers, absent when the triggers are.\<close>

definition viaTriggers :: "(triggers \<Rightarrow> 'a option) \<Rightarrow> skill \<Rightarrow> 'a option" where
  "viaTriggers p sk = (case triggers sk of None \<Rightarrow> None | Some t \<Rightarrow> p t)"

text \<open>The running pair \<^verbatim>\<open>(score, matchReasons)\<close> of one loop iteration.\<close>

type_synonym tally = "nat \<times> string list"

definition keywordStep :: "skill \<Rightarrow> string \<Rightarrow> tally \<Rightarrow> error + tally" where
  "keywordStep sk prompt st =
     (case viaTriggers keywords sk of
        None \<Rightarrow> Inr st
      | Some ks \<Rightarrow>
          (case containsKeywords prompt (Some ks) of
             Inl e \<Rightarrow> Inl e
           | Inr hit \<Rightarrow> Inr (if hit then (fst st + 2, snd st @ [''keyword match'']) else st)))"

definition intentStep :: "skill \<Rightarrow> string \<Rightarrow> tally \<Rightarrow> tally" where
  "intentStep sk prompt st =
     (case viaTriggers intentPatterns sk of
        None \<Rightarrow> st
      | Some ps \<Rightarrow>
          if matchesIntent prompt (Some ps)
          then (fst st + 3, snd st @ [''intent match''])
          else st)"

definition fileStep :: "skill \<Rightarrow> string list \<Rightarrow> tally \<Rightarrow> error + tally" where
  "fileStep sk contextFiles st =
     (case viaTriggers filePatterns sk of
        None \<Rightarrow> Inr st
      | Some fps \<Rightarrow>
          if length contextFiles > 0 then
            (case filterE (\<lambda>file. matchesFilePattern file (Some fps)) contextFiles of
               Inl e \<Rightarrow> Inl e
             | Inr matchingFiles \<Rightarrow>
                 if length matchingFiles > 0 then
                   (let st' = (fst st + 2,
                               snd st @ [''file context ('' @ showNat (length matchingFiles)
                                         @ '' files)''])
                    in case viaTriggers excludePatterns sk of
                         None \<Rightarrow> Inr st'
                       | Some eps \<Rightarrow>
                           (case filterE (\<lambda>file. matchesFilePattern file (Some eps))
                                   matchingFiles of
                              Inl e \<Rightarrow> Inl e
                            | Inr excludedFiles \<Rightarrow>
                                if length excludedFiles = length matchingFiles
                                then Inr (0, [''excluded by pattern''])
                                else Inr st'))
                 else Inr st)
          else Inr st)"

text \<open>The body of the loop up to the test \<^verbatim>\<open>score > 0\<close>: the score and reasons of one rule.\<close>

definition scoreSkill :: "skill \<Rightarrow> string \<Rightarrow> string list \<Rightarrow> error + tally" where
  "scoreSkill sk prompt contextFiles =
     (case keywordStep sk prompt (0, []) of
        Inl e \<Rightarrow> Inl e
      | Inr st \<Rightarrow> fileStep sk contextFiles (intentStep sk prompt st))"

definition mkSuggestion :: "skill \<Rightarrow> tally \<Rightarrow> suggestion" where
  "mkSuggestion sk st =
     \<lparr> skillName = name sk, sDescription = description sk, sMode = mode sk,
       sPriority = priority sk, score = fst st, reasons = snd st \<rparr>"

text \<open>The end of the loop body: the two arrays after the rule has been looked at.\<close>

definition pushSkill :: "skill \<Rightarrow> tally \<Rightarrow> analysis \<Rightarrow> analysis" where
  "pushSkill sk st a =
     (if fst st > 0 then
        (if mode sk = ''block''
         then a\<lparr> blockingSkills := blockingSkills a @ [mkSuggestion sk st] \<rparr>
         else a\<lparr> suggestions := suggestions a @ [mkSuggestion sk st] \<rparr>)
      else a)"

fun analyzeLoop :: "skill list \<Rightarrow> string \<Rightarrow> string list \<Rightarrow> analysis \<Rightarrow> error + analysis" where
  "analyzeLoop [] prompt contextFiles a = Inr a"
| "analyzeLoop (sk # rest) prompt contextFiles a =
     (case scoreSkill sk prompt contextFiles of
        Inl e \<Rightarrow> Inl e
      | Inr st \<Rightarrow> analyzeLoop rest prompt contextFiles (pushSkill sk st a))"

text \<open>
  \<^verbatim>\<open>xs.sort(cmp)\<close>: the stable sort of ECMAScript 2019, as an insertion sort. An element
  goes before the first one it does not compare greater than, so equal elements keep
  their order.
\<close>

fun insertWith :: "('a \<Rightarrow> 'a \<Rightarrow> int) \<Rightarrow> 'a \<Rightarrow> 'a list \<Rightarrow> 'a list" where
  "insertWith cmp x [] = [x]"
| "insertWith cmp x (y # ys) = (if cmp x y \<le> 0 then x # y # ys else y # insertWith cmp x ys)"

fun sortWith :: "('a \<Rightarrow> 'a \<Rightarrow> int) \<Rightarrow> 'a list \<Rightarrow> 'a list" where
  "sortWith cmp [] = []"
| "sortWith cmp (x # xs) = insertWith cmp x (sortWith cmp xs)"

definition byScore :: "suggestion \<Rightarrow> suggestion \<Rightarrow> int" where
  "byScore a b = int (score b) - int (score a)"

section \<open>The rule store\<close>

text \<open>
  What is at a rule-file location: nothing, a file that cannot be read or parsed, or a
  parsed document. The document of the engine has the one property \<^verbatim>\<open>skills\<close>, which
  may be absent.
\<close>

datatype 'a rulesFile = Missing | Corrupt | Parsed 'a

record rules =
  skills :: "skill list option"

text \<open>Lines written to the diagnostic channel (\<^verbatim>\<open>console.error\<close>), by what they report.\<close>

datatype diag =
    LoadError
  | HookError error
  | HookErrorTs error
  | DebugSuggested string

definition loadSkillRules :: "rules rulesFile \<Rightarrow> rules \<times> diag list" where
  "loadSkillRules rulesFile =
     (case rulesFile of
        Missing \<Rightarrow> (\<lparr> skills = Some [] \<rparr>, [])
      | Corrupt \<Rightarrow> (\<lparr> skills = Some [] \<rparr>, [LoadError])
      | Parsed r \<Rightarrow> (r, []))"

text \<open>\<^verbatim>\<open>rules.skills || []\<close>.\<close>

definition skillsOrNone :: "rules \<Rightarrow> skill list" where
  "skillsOrNone rs = (case skills rs of None \<Rightarrow> [] | Some ss \<Rightarrow> ss)"

definition analyzePrompt :: "rules rulesFile \<Rightarrow> string \<Rightarrow> string list
                             \<Rightarrow> diag list \<times> (error + analysis)" where
  "analyzePrompt rulesFile prompt contextFiles =
     (let (rs, log) = loadSkillRules rulesFile in
      (log,
       case analyzeLoop (skillsOrNone rs) prompt contextFiles
              \<lparr> suggestions = [], blockingSkills = [] \<rparr> of
         Inl e \<Rightarrow> Inl e
       | Inr a \<Rightarrow> Inr (a\<lparr> suggestions := sortWith byScore (suggestions a) \<rparr>)))"

section \<open>The message\<close>

text \<open>
  The glyphs of the message literals lie outside the Latin-1 range; they are written as
  the bytes of their UTF-8 encoding, which is how they reach the output stream.
\<close>

definition noEntry :: string where "noEntry = [CHR 0xE2, CHR 0x9B, CHR 0x94]"
definition lightBulb :: string where "lightBulb = [CHR 0xF0, CHR 0x9F, CHR 0x92, CHR 0xA1]"
definition bullet :: string where "bullet = [CHR 0xE2, CHR 0x80, CHR 0xA2]"
definition emDash :: string where "emDash = [CHR 0xE2, CHR 0x80, CHR 0x94]"

definition blockingEntry :: "suggestion \<Rightarrow> string" where
  "blockingEntry sk =
     ''**'' @ skillName sk @ ''**'' @ [NL]
     @ sDescription sk @ [NL]
     @ ''Reason: '' @ join '', '' (reasons sk) @ [NL, NL]
     @ ''Use: `/skill '' @ skillName sk @ ''` before making changes.'' @ [NL, NL]"

definition suggestionEntry :: "suggestion \<Rightarrow> string" where
  "suggestionEntry sk =
     bullet @ '' **'' @ skillName sk @ ''** '' @ emDash @ '' '' @ sDescription sk @ [NL]
     @ ''  Match: '' @ join '', '' (reasons sk) @ [NL]
     @ ''  Use: `/skill '' @ skillName sk @ ''`'' @ [NL, NL]"

definition blockingPart :: "suggestion list \<Rightarrow> string" where
  "blockingPart bs =
     (if length bs > 0 then
        noEntry @ '' **SKILL REQUIRED BEFORE PROCEEDING**'' @ [NL, NL]
        @ concat (map blockingEntry bs)
        @ ''---'' @ [NL, NL]
      else [])"

definition suggestionPart :: "suggestion list \<Rightarrow> string" where
  "suggestionPart ss =
     (if length ss > 0 \<and> length ss \<le> 3 then
        lightBulb @ '' **Suggested Skills** (based on your prompt and context):'' @ [NL, NL]
        @ concat (map suggestionEntry (take 3 ss))
      else [])"

definition formatMessage :: "analysis \<Rightarrow> string option" where
  "formatMessage a =
     (if length (blockingSkills a) = 0 \<and> length (suggestions a) = 0 then None
      else Some (trim (blockingPart (blockingSkills a) @ suggestionPart (suggestions a))))"

section \<open>The entry point of the engine\<close>

text \<open>The request read from the standard input, once parsed.\<close>

record hookInput =
  prompt :: "string option"
  files :: "string list option"
  context_files :: "string list option"

record outcome =
  stdout :: "string list"
  stderr :: "diag list"
  exitCode :: nat

text \<open>
  \<open>main\<close> of the engine. The input is \<open>None\<close> when the standard input is not JSON:
  \<^verbatim>\<open>readStdin\<close> rejects with an error that wraps the syntax error of the parser, and
  the handler of \<open>main\<close> catches it.
\<close>

definition main :: "hookInput option \<Rightarrow> rules rulesFile \<Rightarrow> outcome" where
  "main stdin rulesFile =
     (case stdin of
        None \<Rightarrow> \<lparr> stdout = [], stderr = [HookError SyntaxError], exitCode = 0 \<rparr>
      | Some input \<Rightarrow>
          (let userPrompt = (case prompt input of None \<Rightarrow> [] | Some p \<Rightarrow> p);
               contextFiles =
                 (case files input of
                    Some fs \<Rightarrow> fs
                  | None \<Rightarrow> (case context_files input of Some fs \<Rightarrow> fs | None \<Rightarrow> []))
           in if userPrompt = [] then \<lparr> stdout = [], stderr = [], exitCode = 0 \<rparr>
              else
                (case analyzePrompt rulesFile userPrompt contextFiles of
                   (log, Inl e) \<Rightarrow> \<lparr> stdout = [], stderr = log @ [HookError e], exitCode = 0 \<rparr>
                 | (log, Inr a) \<Rightarrow>
                     (case formatMessage a of
                        None \<Rightarrow> \<lparr> stdout = [], stderr = log, exitCode = 0 \<rparr>
                      | Some message \<Rightarrow>
                          if message \<noteq> [] then \<lparr> stdout = [message], stderr = log, exitCode = 0 \<rparr>
                          else \<lparr> stdout = [], stderr = log, exitCode = 0 \<rparr>))))"

section \<open>The TypeScript hook\<close>

text \<open>
  \<^verbatim>\<open>hooks/skill-activation-prompt.ts\<close>, the variant of the hook that the shell wrapper
  runs. Its rules are the entries of an object keyed by skill name, in the order
  \<^verbatim>\<open>Object.entries\<close> lists them; it has keyword and intent triggers only, matches
  keywords by containment and intent patterns as regular expressions, both against
  the lower-cased prompt (\<open>lowerPrompt\<close> below).
\<close>

record promptTriggers =
  keywordsTs :: "string list option"
  intentPatternsTs :: "string list option"

record skillRule =
  ruleType :: string
  enforcement :: string
  rulePriority :: string
  promptTriggers :: "promptTriggers option"

record skillRules =
  version :: string
  skillEntries :: "(string \<times> skillRule) list option"

datatype matchType = KeywordMatch | IntentMatch

record matchedSkill =
  matchedName :: string
  matchType :: matchType
  config :: skillRule

definition keywordMatchTs :: "string \<Rightarrow> string list \<Rightarrow> bool" where
  "keywordMatchTs lowerPrompt ks = (\<exists>kw \<in> set ks. includesStr lowerPrompt (toLowerCase kw))"

definition intentMatchTs :: "string \<Rightarrow> string list \<Rightarrow> error + bool" where
  "intentMatchTs lowerPrompt ps =
     some (\<lambda>pattern. case newRegExp pattern of
                        Inl e \<Rightarrow> Inl e
                      | Inr regex \<Rightarrow> Inr (regexTest True regex lowerPrompt)) ps"

fun matchLoopTs :: "string \<Rightarrow> (string \<times> skillRule) list \<Rightarrow> matchedSkill list
                    \<Rightarrow> error + matchedSkill list" where
  "matchLoopTs lowerPrompt [] matchedSkills = Inr matchedSkills"
| "matchLoopTs lowerPrompt ((nm, cfg) # rest) matchedSkills =
     (case promptTriggers cfg of
        None \<Rightarrow> matchLoopTs lowerPrompt rest matchedSkills
      | Some trg \<Rightarrow>
          if (case keywordsTs trg of None \<Rightarrow> False | Some ks \<Rightarrow> keywordMatchTs lowerPrompt ks)
          then matchLoopTs lowerPrompt rest
                 (matchedSkills @ [\<lparr> matchedName = nm, matchType = KeywordMatch,
                                      config = cfg \<rparr>])
          else
            (case intentPatternsTs trg of
               None \<Rightarrow> matchLoopTs lowerPrompt rest matchedSkills
             | Some ps \<Rightarrow>
                 (case intentMatchTs lowerPrompt ps of
                    Inl e \<Rightarrow> Inl e
                  | Inr hit \<Rightarrow>
                      matchLoopTs lowerPrompt rest
                        (if hit
                         then matchedSkills @ [\<lparr> matchedName = nm, matchType = IntentMatch,
                                                   config = cfg \<rparr>]
                         else matchedSkills))))"

text \<open>
  The rule file that is read: the project one when \<^verbatim>\<open>CLAUDE_PROJECT_DIR\<close> is set and
  the file exists there, the global one otherwise. Reading raises when the file is
  missing, parsing when it is not JSON.
\<close>

definition rulesPathTs :: "bool \<Rightarrow> 'a rulesFile \<Rightarrow> 'a rulesFile \<Rightarrow> 'a rulesFile" where
  "rulesPathTs projectDirSet projectFile globalFile =
     (if projectDirSet \<and> projectFile \<noteq> Missing then projectFile else globalFile)"

definition readRulesTs :: "skillRules rulesFile \<Rightarrow> error + skillRules" where
  "readRulesTs f = (case f of Missing \<Rightarrow> Inl IOError | Corrupt \<Rightarrow> Inl SyntaxError | Parsed r \<Rightarrow> Inr r)"

definition heavyLine :: string where
  "heavyLine = concat (replicate 39 [CHR 0xE2, CHR 0x94, CHR 0x81])"

definition targetGlyph :: string where "targetGlyph = [CHR 0xF0, CHR 0x9F, CHR 0x8E, CHR 0xAF]"

definition warningGlyph :: string where
  "warningGlyph = [CHR 0xE2, CHR 0x9A, CHR 0xA0, CHR 0xEF, CHR 0xB8, CHR 0x8F]"

definition arrowGlyph :: string where "arrowGlyph = [CHR 0xE2, CHR 0x86, CHR 0x92]"

definition outputTs :: "matchedSkill list \<Rightarrow> string" where
  "outputTs blocking =
     heavyLine @ [NL]
     @ targetGlyph @ '' SKILL ACTIVATION REQUIRED'' @ [NL]
     @ heavyLine @ [NL, NL]
     @ warningGlyph @ '' REQUIRED SKILLS (must use before proceeding):'' @ [NL]
     @ concat (map (\<lambda>s. ''  '' @ arrowGlyph @ '' '' @ matchedName s @ [NL]) blocking)
     @ [NL]
     @ ''ACTION: Use Skill tool with the above skill(s) BEFORE responding'' @ [NL]
     @ heavyLine @ [NL]"

text \<open>The two filters over the matched skills.\<close>

definition blockingSkillsTs :: "matchedSkill list \<Rightarrow> matchedSkill list" where
  "blockingSkillsTs matchedSkills = filter (\<lambda>s. enforcement (config s) = ''block'') matchedSkills"

definition suggestedSkillsTs :: "matchedSkill list \<Rightarrow> matchedSkill list" where
  "suggestedSkillsTs matchedSkills = filter (\<lambda>s. enforcement (config s) \<noteq> ''block'') matchedSkills"

text \<open>The body of the \<^verbatim>\<open>try\<close> block: what is printed and logged, or the exception.\<close>

definition tryTs :: "hookInput option \<Rightarrow> bool \<Rightarrow> skillRules rulesFile \<Rightarrow> skillRules rulesFile
                     \<Rightarrow> error + (string list \<times> diag list)" where
  "tryTs stdin projectDirSet projectFile globalFile =
     (case stdin of
        None \<Rightarrow> Inl SyntaxError
      | Some data \<Rightarrow>
          (case prompt data of
             None \<Rightarrow> Inl TypeError
           | Some p \<Rightarrow>
               (case readRulesTs (rulesPathTs projectDirSet projectFile globalFile) of
                  Inl e \<Rightarrow> Inl e
                | Inr rs \<Rightarrow>
                    (case skillEntries rs of
                       None \<Rightarrow> Inl TypeError
                     | Some entries \<Rightarrow>
                         (case matchLoopTs (toLowerCase p) entries [] of
                            Inl e \<Rightarrow> Inl e
                          | Inr matchedSkills \<Rightarrow>
                              Inr (if length (blockingSkillsTs matchedSkills) > 0
                                   then [outputTs (blockingSkillsTs matchedSkills)] else [],
                                   if length (suggestedSkillsTs matchedSkills) > 0
                                   then [DebugSuggested
                                           (''[DEBUG] Suggested skills: ''
                                            @ join '', '' (map matchedName
                                                            (suggestedSkillsTs matchedSkills)))]
                                   else []))))))"

definition main_ts :: "hookInput option \<Rightarrow> bool \<Rightarrow> skillRules rulesFile \<Rightarrow> skillRules rulesFile
                       \<Rightarrow> outcome" where
  "main_ts stdin projectDirSet projectFile globalFile =
     (case tryTs stdin projectDirSet projectFile globalFile of
        Inl err \<Rightarrow> \<lparr> stdout = [], stderr = [HookErrorTs err], exitCode = 1 \<rparr>
      | Inr (out, log) \<Rightarrow> \<lparr> stdout = out, stderr = log, exitCode = 0 \<rparr>)"

section \<open>Notions used to state the properties\<close>

text \<open>
  The result objects of one bucket, given the rules and the tally each of them scored:
  one object for every rule with a positive score that satisfies \<open>P\<close>, in rule order.
\<close>

definition bucket :: "(skill \<Rightarrow> bool) \<Rightarrow> skill list \<Rightarrow> tally list \<Rightarrow> suggestion list" where
  "bucket P rs sts =
     map (\<lambda>(sk, st). mkSuggestion sk st) (filter (\<lambda>(sk, st). 0 < fst st \<and> P sk) (zip rs sts))"

text \<open>
  The keyword matcher as it is specified: the lower-cased keyword occurs in the lower-cased
  text as it stands, character for character, with a word boundary at both of its ends.
\<close>

definition wholeWordHere :: "string \<Rightarrow> char option \<Rightarrow> string \<Rightarrow> bool" where
  "wholeWordHere kw prev s =
     (take (length kw) s = kw
      \<and> wordBefore prev \<noteq> wordAfter s
      \<and> wordBefore (if kw = [] then prev else Some (last kw)) \<noteq> wordAfter (drop (length kw) s))"

fun wholeWordFrom :: "string \<Rightarrow> char option \<Rightarrow> string \<Rightarrow> bool" where
  "wholeWordFrom kw prev [] = wholeWordHere kw prev []"
| "wholeWordFrom kw prev (c # s) = (wholeWordHere kw prev (c # s) \<or> wholeWordFrom kw (Some c) s)"

definition keywordOccurs :: "string \<Rightarrow> string \<Rightarrow> bool" where
  "keywordOccurs text' keyword = wholeWordFrom (toLowerCase keyword) None (toLowerCase text')"

text \<open>
  A character that stands for itself in a pattern: none of the syntax characters. \<open>lit c\<close>
  is the term a pattern has for such a character.
\<close>

definition plainChar :: "char \<Rightarrow> bool" where
  "plainChar c = (c \<notin> set (BS # ''^$.*+?()[]{}|''))"

definition lit :: "char \<Rightarrow> rterm" where
  "lit c = Atom (Lit c) One"

text \<open>
  The file-glob matcher as it is specified, anchored at both ends of the path: \<^verbatim>\<open>**\<close>
  stands for any sequence of characters, \<^verbatim>\<open>*\<close> for a run of characters other than the
  separator, \<^verbatim>\<open>?\<close> for one character, and every other character, the dot included, for
  itself.
\<close>

fun globMatch :: "string \<Rightarrow> string \<Rightarrow> bool" where
  "globMatch [] s = (s = [])"
| "globMatch (p # ps) s =
     (if p = CHR ''*'' then
        (case ps of
           [] \<Rightarrow> (\<forall>c \<in> set s. c \<noteq> CHR ''/'')
         | q # qs \<Rightarrow>
             if q = CHR ''*'' then (\<exists>k \<in> {..length s}. globMatch qs (drop k s))
             else (\<exists>k \<in> {..length s}. (\<forall>c \<in> set (take k s). c \<noteq> CHR ''/'')
                                         \<and> globMatch (q # qs) (drop k s)))
      else if p = CHR ''?'' then (case s of [] \<Rightarrow> False | c # s' \<Rightarrow> globMatch ps s')
      else (case s of [] \<Rightarrow> False | c # s' \<Rightarrow> c = p \<and> globMatch ps s'))"

text \<open>
  The patterns on which the two are compared: glob characters only (plain ones, the dot,
  the star and the question mark) and no two stars in a row. \<open>globSource\<close> is what the
  replacements make of one such character, \<open>globTerm\<close> the term it compiles to.
\<close>

definition globChar :: "char \<Rightarrow> bool" where
  "globChar c = (plainChar c \<or> c \<in> set ''.*?'')"

fun noStarStar :: "string \<Rightarrow> bool" where
  "noStarStar (c # d # cs) = (\<not> (c = CHR ''*'' \<and> d = CHR ''*'') \<and> noStarStar (d # cs))"
| "noStarStar cs = True"

definition globSource :: "char \<Rightarrow> string" where
  "globSource c = (if c = CHR ''.'' then [BS, CHR ''.'']
                   else if c = CHR ''*'' then ''[^/]*''
                   else if c = CHR ''?'' then ''.''
                   else [c])"

definition globTerm :: "char \<Rightarrow> rterm" where
  "globTerm c = (if c = CHR ''*'' then Atom (Class True [(CHR ''/'', CHR ''/'')]) Star
                 else if c = CHR ''?'' then Atom Dot One
                 else lit c)"

section \<open>Fixtures\<close>

text \<open>Rules, requests and rule files for the concrete instances below.\<close>

definition keywordRule :: "string \<Rightarrow> string \<Rightarrow> string list \<Rightarrow> skill" where
  "keywordRule n m ks =
     \<lparr> name = n, description = ''guide'', mode = m, priority = ''low'',
       triggers = Some \<lparr> keywords = Some ks, intentPatterns = None,
                         filePatterns = None, excludePatterns = None \<rparr> \<rparr>"

definition sqlRule :: skill where
  "sqlRule =
     \<lparr> name = ''sql-guidelines'', description = ''guide'', mode = ''suggest'', priority = ''low'',
       triggers = Some \<lparr> keywords = Some [''sql''], intentPatterns = Some [''write''],
                         filePatterns = Some [''*.sql''],
                         excludePatterns = Some [''*_test.sql''] \<rparr> \<rparr>"

definition excludeOnlyRule :: skill where
  "excludeOnlyRule =
     \<lparr> name = ''sql-guidelines'', description = ''guide'', mode = ''suggest'', priority = ''low'',
       triggers = Some \<lparr> keywords = Some [''sql''], intentPatterns = None,
                         filePatterns = None, excludePatterns = Some [''*''] \<rparr> \<rparr>"

definition promptOnly :: "string \<Rightarrow> hookInput" where
  "promptOnly p = \<lparr> prompt = Some p, files = None, context_files = None \<rparr>"

definition noPrompt :: hookInput where
  "noPrompt = \<lparr> prompt = None, files = None, context_files = None \<rparr>"

definition fourSuggestRules :: "rules rulesFile" where
  "fourSuggestRules =
     Parsed \<lparr> skills = Some [keywordRule ''s1'' ''suggest'' [''deploy''],
                               keywordRule ''s2'' ''suggest'' [''deploy''],
                               keywordRule ''s3'' ''suggest'' [''deploy''],
                               keywordRule ''s4'' ''suggest'' [''deploy'']] \<rparr>"

definition mixedRules :: "rules rulesFile" where
  "mixedRules =
     Parsed \<lparr> skills = Some [keywordRule ''tips'' ''suggest'' [''deploy''],
                               keywordRule ''guard'' ''block'' [''deploy''],
                               keywordRule ''other'' ''warn'' [''zebra'']] \<rparr>"

definition badKeywordRules :: "rules rulesFile" where
  "badKeywordRules = Parsed \<lparr> skills = Some [keywordRule ''cpp'' ''suggest'' [''c++'']] \<rparr>"

definition ruleTs :: "string \<Rightarrow> string list \<Rightarrow> string list \<Rightarrow> skillRule" where
  "ruleTs e ks ps =
     \<lparr> ruleType = ''domain'', enforcement = e, rulePriority = ''high'',
       promptTriggers = Some \<lparr> keywordsTs = Some ks, intentPatternsTs = Some ps \<rparr> \<rparr>"

definition rulesTs :: "(string \<times> skillRule) list \<Rightarrow> skillRules rulesFile" where
  "rulesTs entries = Parsed \<lparr> version = ''1.0'', skillEntries = Some entries \<rparr>"

section \<open>The pattern matchers\<close>

text \<open>
  On keywords of plain characters the keyword matcher is the specified one: the pattern
  is the keyword between two word-boundary assertions, and under the \<^verbatim>\<open>i\<close> flag two
  lower-cased characters are the same only when they are equal.
\<close>

lemma map_of_zip_inverse:
  "length xs = length ys \<Longrightarrow> distinct xs \<Longrightarrow> distinct ys \<Longrightarrow>
   map_of (zip xs ys) x = Some y \<Longrightarrow> map_of (zip ys xs) y = Some x"
proof (induction xs ys rule: list_induct2)
  case Nil
  then show ?case by simp
next
  case (Cons x' xs y' ys)
  show ?case
  proof (cases "x = x'")
    case True
    with Cons.prems show ?thesis by simp
  next
    case False
    with Cons.prems have m: "map_of (zip xs ys) x = Some y" by simp
    then have "y \<in> set ys" by (meson map_of_SomeD set_zip_rightD)
    with Cons.prems have "y \<noteq> y'" by auto
    with Cons m show ?thesis by simp
  qed
qed

lemma case_tables:
  "length (asciiUpper @ latinUpper) = length (asciiLower @ latinLower)"
  "distinct (asciiUpper @ latinUpper)"
  "distinct (asciiLower @ latinLower)"
  "set (asciiUpper @ latinUpper) \<inter> set (asciiLower @ latinLower) = {}"
  by (simp_all add: asciiUpper_def asciiLower_def latinUpper_def latinLower_def)

lemma lowerChar_cases:
  obtains (upper) d where "map_of (zip (asciiUpper @ latinUpper) (asciiLower @ latinLower)) c = Some d"
      "lowerChar c = d" "d \<in> set (asciiLower @ latinLower)" "canonicalize d = c"
    | (other) "c \<notin> set (asciiUpper @ latinUpper)" "lowerChar c = c"
proof (cases "map_of (zip (asciiUpper @ latinUpper) (asciiLower @ latinLower)) c")
  case None
  then have "c \<notin> set (asciiUpper @ latinUpper)"
    using case_tables(1) by (metis map_of_zip_is_None)
  with None other show ?thesis by (simp add: lowerChar_def)
next
  case (Some d)
  then have d: "d \<in> set (asciiLower @ latinLower)" by (meson map_of_SomeD set_zip_rightD)
  from map_of_zip_inverse [OF case_tables(1-3) Some]
  have "canonicalize d = c" by (simp add: canonicalize_def)
  with Some d upper show ?thesis by (simp add: lowerChar_def)
qed

lemma not_upper_lowerChar: "c \<notin> set (asciiUpper @ latinUpper) \<Longrightarrow> lowerChar c = c"
proof -
  assume "c \<notin> set (asciiUpper @ latinUpper)"
  then have "map_of (zip (asciiUpper @ latinUpper) (asciiLower @ latinLower)) c = None"
    using case_tables(1) by (metis map_of_zip_is_None)
  then show ?thesis by (simp add: lowerChar_def)
qed

lemma lowerChar_idem [simp]: "lowerChar (lowerChar c) = lowerChar c"
proof (cases c rule: lowerChar_cases)
  case (upper d)
  with case_tables(4) have "d \<notin> set (asciiUpper @ latinUpper)" by blast
  with upper show ?thesis by (simp add: not_upper_lowerChar)
next
  case other
  then show ?thesis by simp
qed

lemma lowerChar_canonicalize: "lowerChar c = c \<Longrightarrow> lowerChar (canonicalize c) = c"
proof (cases "map_of (zip (asciiLower @ latinLower) (asciiUpper @ latinUpper)) c")
  case None
  assume "lowerChar c = c"
  with None show ?thesis by (simp add: canonicalize_def)
next
  case (Some u)
  from map_of_zip_inverse [OF case_tables(1) [symmetric] case_tables(3,2) Some] Some
  show ?thesis by (simp add: canonicalize_def lowerChar_def)
qed

lemma canonicalize_eq_iff:
  "lowerChar a = a \<Longrightarrow> lowerChar c = c \<Longrightarrow> canonicalize a = canonicalize c \<longleftrightarrow> a = c"
  by (metis lowerChar_canonicalize)

lemma plainChar_lowerChar: "plainChar c \<Longrightarrow> plainChar (lowerChar c)"
proof (cases c rule: lowerChar_cases)
  case (upper d)
  have "\<forall>x \<in> set (asciiLower @ latinLower). plainChar x"
    by (simp add: asciiLower_def latinLower_def plainChar_def)
  with upper show ?thesis by simp
next
  case other
  assume "plainChar c"
  with other show ?thesis by simp
qed

lemma parseRegExp_plain:
  "\<forall>c \<in> set k. plainChar c \<Longrightarrow>
   parseRegExp Top st acc (k @ rest)
     = parseRegExp Top (if k = [] then st else Fresh) (rev (map lit k) @ acc) rest"
proof (induction k arbitrary: st acc)
  case Nil
  then show ?case by simp
next
  case (Cons c k)
  from Cons.prems have c: "plainChar c" and k: "\<forall>c \<in> set k. plainChar c" by simp_all
  from c have "parseRegExp Top st acc (c # k @ rest) = parseRegExp Top Fresh (lit c # acc) (k @ rest)"
    by (simp add: plainChar_def lit_def)
  with Cons.IH [OF k, of Fresh "lit c # acc"] show ?case by simp
qed

lemma newRegExp_keyword:
  assumes "\<forall>c \<in> set k. plainChar c"
  shows "newRegExp (BS # CHR ''b'' # k @ [BS, CHR ''b''])
           = Inr (Assert WordB # map lit k @ [Assert WordB])"
proof -
  have e: "escapeTerm (CHR ''b'') = Inr (Assert WordB)" by (simp add: escapeTerm_def)
  have "newRegExp (BS # CHR ''b'' # k @ [BS, CHR ''b''])
          = parseRegExp Top NoAtom [Assert WordB] (k @ [BS, CHR ''b''])"
    by (simp add: newRegExp_def e afterTerm_def)
  also have "\<dots> = parseRegExp Top (if k = [] then NoAtom else Fresh) (rev (map lit k) @ [Assert WordB]) [BS, CHR ''b'']"
    using assms by (rule parseRegExp_plain)
  also have "\<dots> = Inr (Assert WordB # map lit k @ [Assert WordB])"
    by (simp add: e afterTerm_def)
  finally show ?thesis .
qed

lemma matchHere_lit [simp]:
  "matchHere True (lit a # ts) prev [] = False"
  "matchHere True (lit a # ts) prev (c # s)
     = (canonicalize a = canonicalize c \<and> matchHere True ts (Some c) s)"
  by (simp_all add: lit_def)

lemma matchHere_lits:
  "\<forall>c \<in> set k. lowerChar c = c \<Longrightarrow> \<forall>c \<in> set s. lowerChar c = c \<Longrightarrow>
   matchHere True (map lit k @ ts) prev s
     = (take (length k) s = k
        \<and> matchHere True ts (if k = [] then prev else Some (last k)) (drop (length k) s))"
proof (induction k arbitrary: prev s)
  case Nil
  then show ?case by simp
next
  case (Cons a k)
  show ?case
  proof (cases s)
    case Nil
    then show ?thesis by simp
  next
    case (Cons c s')
    with Cons.prems have ac: "canonicalize a = canonicalize c \<longleftrightarrow> a = c"
      by (simp add: canonicalize_eq_iff)
    from Cons.prems Cons
    have ih: "matchHere True (map lit k @ ts) (Some c) s'
       = (take (length k) s' = k
          \<and> matchHere True ts (if k = [] then Some c else Some (last k)) (drop (length k) s'))"
      by (intro Cons.IH) simp_all
    show ?thesis using Cons ac ih by auto
  qed
qed

lemma matchHere_keyword:
  assumes "\<forall>c \<in> set k. lowerChar c = c" "\<forall>c \<in> set s. lowerChar c = c"
  shows "matchHere True (Assert WordB # map lit k @ [Assert WordB]) prev s = wholeWordHere k prev s"
  using matchHere_lits [OF assms, of "[Assert WordB]" prev]
  by (auto simp: wholeWordHere_def)

lemma searchFrom_keyword:
  "\<forall>c \<in> set k. lowerChar c = c \<Longrightarrow> \<forall>c \<in> set s. lowerChar c = c \<Longrightarrow>
   searchFrom True (Assert WordB # map lit k @ [Assert WordB]) prev s = wholeWordFrom k prev s"
proof (induction s arbitrary: prev)
  case Nil
  then show ?case using matchHere_keyword [of k "[]" prev] by simp
next
  case (Cons c s)
  from Cons.prems have "searchFrom True (Assert WordB # map lit k @ [Assert WordB]) (Some c) s
                          = wholeWordFrom k (Some c) s"
    by (intro Cons.IH) simp_all
  with matchHere_keyword [OF Cons.prems, of prev] show ?case by simp
qed

lemma matchesOneKeyword_plain:
  assumes "\<forall>c \<in> set kw. plainChar c"
  shows "matchesOneKeyword (toLowerCase t) kw = Inr (keywordOccurs t kw)"
proof -
  have p: "\<forall>c \<in> set (toLowerCase kw). plainChar c"
    using assms by (auto simp: toLowerCase_def plainChar_lowerChar)
  have l: "\<forall>c \<in> set (toLowerCase x). lowerChar c = c" for x
    by (auto simp: toLowerCase_def)
  show ?thesis
    by (simp add: matchesOneKeyword_def Let_def newRegExp_keyword [OF p] regexTest_def
          searchFrom_keyword [OF l l] keywordOccurs_def)
qed

lemma some_total: "\<forall>x \<in> set xs. f x = Inr (b x) \<Longrightarrow> some f xs = Inr (\<exists>x \<in> set xs. b x)"
  by (induction xs) auto

lemma containsKeywords_plain:
  assumes "\<forall>kw \<in> set kws. \<forall>c \<in> set kw. plainChar c"
  shows "containsKeywords t (Some kws) = Inr (\<exists>kw \<in> set kws. keywordOccurs t kw)"
proof -
  have "some (matchesOneKeyword (toLowerCase t)) kws = Inr (\<exists>kw \<in> set kws. keywordOccurs t kw)"
    using assms by (intro some_total) (simp add: matchesOneKeyword_plain)
  then show ?thesis by (cases kws) (simp_all add: containsKeywords_def)
qed

text \<open>
  C3. The keyword is interpolated into the pattern as it stands, so it is read as a
  regular expression and not as a word: \<^verbatim>\<open>node.js\<close> hits a text in which it does not
  occur, and \<^verbatim>\<open>c++\<close> raises before the keyword \<^verbatim>\<open>learn\<close>, which does occur as a whole
  word, is looked at. On keywords made of letters the matcher answers as specified.
\<close>

theorem C3_keyword_read_as_pattern:
  "containsKeywords ''nodexjs rocks'' (Some [''node.js'']) = Inr True
   \<and> \<not> keywordOccurs ''nodexjs rocks'' ''node.js''
   \<and> containsKeywords ''learn c++ today'' (Some [''c++'', ''learn'']) = Inl SyntaxError
   \<and> keywordOccurs ''learn c++ today'' ''learn''
   \<and> containsKeywords ''Call the API'' (Some [''api'']) = Inr True
   \<and> containsKeywords ''rapidly'' (Some [''api'']) = Inr False"
  by code_simp

text \<open>
  On patterns of glob characters without two stars in a row, and paths without line
  terminators, the file-glob matcher is the specified one: the three replacements act
  character by character, the pattern compiles to one term per character between the two
  anchors, and a starred class matches exactly the runs without separator.
\<close>

lemma replaceChar_Cons: "replaceChar c rep (x # s) = (if x = c then rep else [x]) @ replaceChar c rep s"
  by (simp add: replaceChar_def)

lemma replaceChar_Nil [simp]: "replaceChar c rep [] = []"
  by (simp add: replaceChar_def)

lemma replaceChar_append: "replaceChar c rep (s @ t) = replaceChar c rep s @ replaceChar c rep t"
  by (simp add: replaceChar_def)

lemma noStarStar_Cons: "c \<noteq> CHR ''*'' \<Longrightarrow> noStarStar (c # s) = noStarStar s"
  by (cases s) simp_all

lemma noStarStar_star: "noStarStar (CHR ''*'' # s) = ((s = [] \<or> hd s \<noteq> CHR ''*'') \<and> noStarStar s)"
  by (cases s) auto

lemma replaceStarStar_id: "noStarStar s \<Longrightarrow> replaceStarStar s = s"
  by (induction s rule: replaceStarStar.induct) auto

lemma hd_replaceDot: "s \<noteq> [] \<Longrightarrow> hd s \<noteq> CHR ''*'' \<Longrightarrow> hd (replaceChar (CHR ''.'') [BS, CHR ''.''] s) \<noteq> CHR ''*''"
  by (cases s) (auto simp: replaceChar_Cons)

lemma replaceDot_Nil_iff: "replaceChar (CHR ''.'') [BS, CHR ''.''] s = [] \<longleftrightarrow> s = []"
  by (cases s) (auto simp: replaceChar_Cons)

lemma noStarStar_replaceDot:
  "noStarStar s \<Longrightarrow> noStarStar (replaceChar (CHR ''.'') [BS, CHR ''.''] s)"
proof (induction s)
  case Nil
  then show ?case by simp
next
  case (Cons c s)
  show ?case
  proof (cases "c = CHR ''*''")
    case True
    with Cons show ?thesis
      by (auto simp: replaceChar_Cons noStarStar_star replaceDot_Nil_iff hd_replaceDot)
  next
    case False
    with Cons show ?thesis
      by (auto simp: replaceChar_Cons noStarStar_Cons)
  qed
qed

lemma regexPattern_glob:
  assumes "noStarStar p"
  shows "regexPattern p = concat (map globSource p)"
proof -
  have "replaceChar (CHR ''?'') ''.'' (replaceChar (CHR ''*'') ''[^/]*''
          (replaceChar (CHR ''.'') [BS, CHR ''.''] q)) = concat (map globSource q)" for q
    by (induction q) (auto simp: replaceChar_Cons replaceChar_append globSource_def)
  then show ?thesis
    using assms by (simp add: regexPattern_def replaceStarStar_id noStarStar_replaceDot)
qed

lemma parseRegExp_globSource:
  assumes "globChar c"
  shows "\<exists>st'. parseRegExp Top st acc (globSource c @ rest) = parseRegExp Top st' (globTerm c # acc) rest"
proof -
  consider "c = CHR ''.''" | "c = CHR ''*''" | "c = CHR ''?''" | "plainChar c"
    using assms by (auto simp: globChar_def)
  then show ?thesis
  proof cases
    case 1
    then show ?thesis
      by (auto simp: globSource_def globTerm_def lit_def escapeTerm_def afterTerm_def
                     asciiLower_def asciiUpper_def asciiDigits_def)
  next
    case 2
    then show ?thesis by (auto simp: globSource_def globTerm_def)
  next
    case 3
    then show ?thesis by (auto simp: globSource_def globTerm_def)
  next
    case 4
    then show ?thesis by (auto simp: globSource_def globTerm_def lit_def plainChar_def)
  qed
qed

lemma parseRegExp_glob:
  "\<forall>c \<in> set p. globChar c \<Longrightarrow>
   \<exists>st'. parseRegExp Top st acc (concat (map globSource p) @ rest)
          = parseRegExp Top st' (rev (map globTerm p) @ acc) rest"
proof (induction p arbitrary: st acc)
  case Nil
  then show ?case by auto
next
  case (Cons c p)
  from Cons.prems have "globChar c" by simp
  from parseRegExp_globSource [OF this, of st acc "concat (map globSource p) @ rest"]
  obtain st1 where 1: "parseRegExp Top st acc (globSource c @ concat (map globSource p) @ rest)
                     = parseRegExp Top st1 (globTerm c # acc) (concat (map globSource p) @ rest)"
    by blast
  from Cons.IH [of st1 "globTerm c # acc"] Cons.prems
  obtain st' where "parseRegExp Top st1 (globTerm c # acc) (concat (map globSource p) @ rest)
                     = parseRegExp Top st' (rev (map globTerm p) @ globTerm c # acc) rest"
    by auto
  with 1 show ?case by auto
qed

lemma newRegExp_glob:
  assumes "\<forall>c \<in> set p. globChar c" "noStarStar p"
  shows "newRegExp (CHR ''^'' # regexPattern p @ ''$'')
           = Inr (Assert Bol # map globTerm p @ [Assert Eol])"
proof -
  from parseRegExp_glob [OF assms(1), of NoAtom "[Assert Bol]" "''$''"]
  obtain st' where "parseRegExp Top NoAtom [Assert Bol] (concat (map globSource p) @ ''$'')
                      = parseRegExp Top st' (rev (map globTerm p) @ [Assert Bol]) ''$''"
    by blast
  then show ?thesis
    by (simp add: newRegExp_def regexPattern_glob [OF assms(2)])
qed


lemma searchFrom_Bol: "searchFrom ic (Assert Bol # ts) (Some c) s = False"
  by (induction s arbitrary: c) simp_all

lemma regexTest_Bol: "regexTest ic (Assert Bol # ts) s = matchHere ic ts None s"
  by (cases s) (simp_all add: regexTest_def searchFrom_Bol)

lemma ex_le_Suc: "(\<exists>k \<le> Suc n. P k) \<longleftrightarrow> P 0 \<or> (\<exists>k \<le> n. P (Suc k))"
proof
  assume "\<exists>k \<le> Suc n. P k"
  then obtain k where k: "k \<le> Suc n" "P k" by blast
  then show "P 0 \<or> (\<exists>k \<le> n. P (Suc k))" by (cases k) auto
next
  assume "P 0 \<or> (\<exists>k \<le> n. P (Suc k))"
  then show "\<exists>k \<le> Suc n. P k" by auto
qed

lemma matchHere_Star:
  assumes "\<And>prev k. k \<le> length s \<Longrightarrow> matchHere ic ts prev (drop k s) = G (drop k s)"
  shows "matchHere ic (Atom C Star # ts) prev s
           = (\<exists>k \<le> length s. (\<forall>c \<in> set (take k s). csetMatches ic C c) \<and> G (drop k s))"
  using assms
proof (induction s arbitrary: prev)
  case Nil
  from Nil [of 0 prev] show ?case by simp
next
  case (Cons c s)
  have ih: "matchHere ic (Atom C Star # ts) (Some c) s
              = (\<exists>k \<le> length s. (\<forall>c \<in> set (take k s). csetMatches ic C c) \<and> G (drop k s))"
  proof (rule Cons.IH)
    fix prev k
    assume "k \<le> length s"
    with Cons.prems [of "Suc k" prev] show "matchHere ic ts prev (drop k s) = G (drop k s)"
      by simp
  qed
  from Cons.prems [of 0 prev] have here: "matchHere ic ts prev (c # s) = G (c # s)" by simp
  show ?case by (simp add: ih here ex_le_Suc) blast
qed

lemma slash_class: "csetMatches False (Class True [(CHR ''/'', CHR ''/'')]) c \<longleftrightarrow> c \<noteq> CHR ''/''"
proof -
  have "of_char c = (of_char (CHR ''/'') :: nat) \<longleftrightarrow> c = CHR ''/''" by (rule of_char_eq_iff)
  then show ?thesis by (auto simp: inRange_def)
qed

lemma globMatch_star:
  assumes "noStarStar (CHR ''*'' # p)"
  shows "globMatch (CHR ''*'' # p) s
           = (\<exists>k \<le> length s. (\<forall>c \<in> set (take k s). c \<noteq> CHR ''/'') \<and> globMatch p (drop k s))"
proof (cases p)
  case Nil
  have "(\<forall>c \<in> set s. c \<noteq> CHR ''/'')
          = (\<exists>k \<le> length s. (\<forall>c \<in> set (take k s). c \<noteq> CHR ''/'') \<and> drop k s = [])"
  proof
    assume "\<forall>c \<in> set s. c \<noteq> CHR ''/''"
    then show "\<exists>k \<le> length s. (\<forall>c \<in> set (take k s). c \<noteq> CHR ''/'') \<and> drop k s = []"
      by (intro exI [of _ "length s"]) simp
  next
    assume "\<exists>k \<le> length s. (\<forall>c \<in> set (take k s). c \<noteq> CHR ''/'') \<and> drop k s = []"
    then obtain k where k: "k \<le> length s" "\<forall>c \<in> set (take k s). c \<noteq> CHR ''/''" "drop k s = []"
      by blast
    then have "k = length s" by simp
    with k(2) show "\<forall>c \<in> set s. c \<noteq> CHR ''/''" by simp
  qed
  with Nil show ?thesis by simp
next
  case (Cons q qs)
  with assms have "q \<noteq> CHR ''*''" by simp
  with Cons show ?thesis by (auto simp: Bex_def)
qed

lemma noStarStar_tail: "noStarStar (c # p) \<Longrightarrow> noStarStar p"
  by (cases p) auto

lemma matchHere_glob:
  "\<forall>c \<in> set p. globChar c \<Longrightarrow> noStarStar p \<Longrightarrow> \<forall>c \<in> set s. \<not> isLineTerminator c \<Longrightarrow>
   matchHere False (map globTerm p @ [Assert Eol]) prev s = globMatch p s"
proof (induction p arbitrary: prev s)
  case Nil
  then show ?case by simp
next
  case (Cons c p)
  from Cons.prems have p: "\<forall>c \<in> set p. globChar c" by simp
  from Cons.prems have n: "noStarStar p" by (auto dest: noStarStar_tail)
  have ih: "matchHere False (map globTerm p @ [Assert Eol]) prev' s' = globMatch p s'"
    if "set s' \<subseteq> set s" for prev' s'
    using that Cons.prems(3) by (intro Cons.IH [OF p n]) blast
  show ?case
  proof (cases "c = CHR ''*''")
    case True
    have B: "globTerm (CHR ''*'') = Atom (Class True [(CHR ''/'', CHR ''/'')]) Star"
      by (simp add: globTerm_def)
    have A: "matchHere False (Atom (Class True [(CHR ''/'', CHR ''/'')]) Star
                              # map globTerm p @ [Assert Eol]) prev s
          = (\<exists>k \<le> length s. (\<forall>x \<in> set (take k s). x \<noteq> CHR ''/'') \<and> globMatch p (drop k s))"
      unfolding slash_class [symmetric]
      by (rule matchHere_Star) (simp add: ih set_drop_subset)
    from Cons.prems(2) True have "noStarStar (CHR ''*'' # p)" by simp
    from globMatch_star [OF this] show ?thesis using True by (simp only: list.map append_Cons A B)
  next
    case False
    then have B: "globTerm c = (if c = CHR ''?'' then Atom Dot One else lit c)"
      by (simp add: globTerm_def)
    show ?thesis
    proof (cases s)
      case Nil
      with False show ?thesis by (simp add: B lit_def)
    next
      case (Cons x s')
      with Cons.prems(3) have x: "\<not> isLineTerminator x" by simp
      from Cons have "set s' \<subseteq> set s" by auto
      from ih [OF this] Cons False x show ?thesis
        by (auto simp: B lit_def)
    qed
  qed
qed

lemma matchesOnePattern_glob:
  assumes "\<forall>c \<in> set pattern. globChar c" and "noStarStar pattern"
      and "\<forall>c \<in> set filePath. \<not> isLineTerminator c"
  shows "matchesOnePattern filePath pattern = Inr (globMatch pattern filePath)"
  by (simp add: matchesOnePattern_def newRegExp_glob [OF assms(1,2)] regexTest_Bol
        matchHere_glob [OF assms])

lemma matchesFilePattern_glob:
  assumes "\<forall>pattern \<in> set ps. (\<forall>c \<in> set pattern. globChar c) \<and> noStarStar pattern"
      and "\<forall>c \<in> set filePath. \<not> isLineTerminator c"
  shows "matchesFilePattern filePath (Some ps) = Inr (\<exists>pattern \<in> set ps. globMatch pattern filePath)"
proof -
  have "some (matchesOnePattern filePath) ps = Inr (\<exists>pattern \<in> set ps. globMatch pattern filePath)"
    using assms by (intro some_total) (simp add: matchesOnePattern_glob)
  then show ?thesis by (cases ps) (simp_all add: matchesFilePattern_def)
qed


lemma globMatch_starI:
  "k \<le> length s \<Longrightarrow> \<forall>c \<in> set (take k s). c \<noteq> CHR ''/'' \<Longrightarrow> q \<noteq> CHR ''*'' \<Longrightarrow>
   globMatch (q # qs) (drop k s) \<Longrightarrow> globMatch (CHR ''*'' # q # qs) s"
  by auto

lemma globMatch_starstarI:
  "k \<le> length s \<Longrightarrow> globMatch qs (drop k s) \<Longrightarrow> globMatch (CHR ''*'' # CHR ''*'' # qs) s"
  by auto

lemma spec_double_star: "globMatch ''**/*.ts'' ''src/hooks/a.ts''"
proof -
  have a: "globMatch ''*.ts'' ''a.ts''"
    by (rule globMatch_starI [where k = 1]) simp_all
  show ?thesis
    by (rule globMatch_starstarI [where k = 9]) (use a in simp_all)
qed

lemma spec_double_star_empty: "globMatch ''src/**'' ''src/''"
proof -
  have "globMatch ''**'' []"
    by (rule globMatch_starstarI [where k = 0]) simp_all
  then show ?thesis by simp
qed

text \<open>
  C4. The replacement of \<^verbatim>\<open>*\<close> runs after the one of \<^verbatim>\<open>**\<close> and rewrites the star of
  its result, so \<^verbatim>\<open>**\<close> becomes one character followed by a run without separator:
  it crosses at most one separator and never matches the empty sequence, where the
  specified \<^verbatim>\<open>**\<close> matches both paths below.
\<close>

theorem C4_double_star_stops_at_separator:
  "regexPattern ''**/*.ts'' = ''.[^/]*/[^/]*'' @ [BS] @ ''.ts''
   \<and> matchesFilePattern ''src/hooks/a.ts'' (Some [''**/*.ts'']) = Inr False
   \<and> globMatch ''**/*.ts'' ''src/hooks/a.ts''
   \<and> matchesFilePattern ''src/'' (Some [''src/**'']) = Inr False
   \<and> globMatch ''src/**'' ''src/''
   \<and> matchesFilePattern ''src/a.ts'' (Some [''**/*.ts'']) = Inr True"
proof -
  have h1: "regexPattern ''**/*.ts'' = ''.[^/]*/[^/]*'' @ [BS] @ ''.ts''" by code_simp
  have h2: "matchesFilePattern ''src/hooks/a.ts'' (Some [''**/*.ts'']) = Inr False" by code_simp
  have h3: "matchesFilePattern ''src/'' (Some [''src/**'']) = Inr False" by code_simp
  have h4: "matchesFilePattern ''src/a.ts'' (Some [''**/*.ts'']) = Inr True" by code_simp
  from h1 h2 h3 h4 spec_double_star spec_double_star_empty show ?thesis by blast
qed

section \<open>Scoring of one rule\<close>

lemma matchesFilePattern_None [simp]: "matchesFilePattern file None = Inr False"
  by (simp add: matchesFilePattern_def)

lemma containsKeywords_None [simp]: "containsKeywords t None = Inr False"
  by (simp add: containsKeywords_def)

lemma matchesIntent_None [simp]: "matchesIntent t None = False"
  by (simp add: matchesIntent_def)

lemma filterE_all_False: "\<forall>x \<in> set xs. f x = Inr False \<Longrightarrow> filterE f xs = Inr []"
  by (induction xs) auto

lemma filterE_all_True: "\<forall>x \<in> set xs. f x = Inr True \<Longrightarrow> filterE f xs = Inr xs"
  by (induction xs) auto

lemma filterE_Nil_iff: "filterE f xs = Inr [] \<Longrightarrow> x \<in> set xs \<Longrightarrow> f x = Inr False"
  by (induction xs arbitrary: x) (auto split: sum.splits if_splits)

lemma filterE_length: "filterE f xs = Inr ys \<Longrightarrow> length ys \<le> length xs"
proof (induction xs arbitrary: ys)
  case Nil
  then show ?case by simp
next
  case (Cons x xs)
  then show ?case by (fastforce split: sum.splits if_splits)
qed

lemma keywordStep_eq:
  "containsKeywords p (viaTriggers keywords sk) = Inr k \<Longrightarrow>
   keywordStep sk p st = Inr (if k then (fst st + 2, snd st @ [''keyword match'']) else st)"
  by (auto simp: keywordStep_def split: option.splits)

lemma intentStep_eq:
  "intentStep sk p st = (if matchesIntent p (viaTriggers intentPatterns sk)
                         then (fst st + 3, snd st @ [''intent match'']) else st)"
  by (auto simp: intentStep_def split: option.splits)

lemma fileStep_no_match:
  assumes "contextFiles = [] \<or> viaTriggers filePatterns sk = None
           \<or> filterE (\<lambda>file. matchesFilePattern file (viaTriggers filePatterns sk)) contextFiles = Inr []"
  shows "fileStep sk contextFiles st = Inr st"
  using assms by (auto simp: fileStep_def split: option.splits)

lemma fileStep_match:
  assumes "filterE (\<lambda>file. matchesFilePattern file (viaTriggers filePatterns sk)) contextFiles = Inr matchingFiles"
      and "matchingFiles \<noteq> []"
      and "filterE (\<lambda>file. matchesFilePattern file (viaTriggers excludePatterns sk)) matchingFiles = Inr excludedFiles"
  shows "fileStep sk contextFiles st =
           Inr (if length excludedFiles = length matchingFiles then (0, [''excluded by pattern''])
                else (fst st + 2, snd st @ [''file context ('' @ showNat (length matchingFiles) @ '' files)'']))"
proof -
  from assms(1,2) obtain fps where fps: "viaTriggers filePatterns sk = Some fps"
    by (cases "viaTriggers filePatterns sk") (auto simp: filterE_all_False)
  from assms(1,2) have ne: "contextFiles \<noteq> []" by auto
  show ?thesis
  proof (cases "viaTriggers excludePatterns sk")
    case None
    with assms(3) have "excludedFiles = []" by (simp add: filterE_all_False)
    with None fps ne assms(1,2) show ?thesis by (simp add: fileStep_def Let_def)
  next
    case (Some eps)
    with fps ne assms show ?thesis by (simp add: fileStep_def Let_def)
  qed
qed

text \<open>
  C2. When the file patterns of a rule match at least one context file and every matching
  file also matches an exclude pattern, the rule scores exactly 0 with the single reason
  \<open>excluded by pattern\<close>, whatever the keyword and intent triggers contributed (the keyword
  matcher is only required to return, with either answer); the rule then adds nothing to
  either bucket.
\<close>

theorem C2_exclusion_annuls_score:
  assumes "filterE (\<lambda>file. matchesFilePattern file (viaTriggers filePatterns sk)) contextFiles
             = Inr matchingFiles"
      and "matchingFiles \<noteq> []"
      and "\<forall>file \<in> set matchingFiles.
             matchesFilePattern file (viaTriggers excludePatterns sk) = Inr True"
      and "containsKeywords p (viaTriggers keywords sk) = Inr keywordHit"
  shows "scoreSkill sk p contextFiles = Inr (0, [''excluded by pattern''])
         \<and> analyzeLoop (sk # rest) p contextFiles a = analyzeLoop rest p contextFiles a"
proof -
  have ex: "filterE (\<lambda>file. matchesFilePattern file (viaTriggers excludePatterns sk)) matchingFiles
              = Inr matchingFiles"
    using assms(3) by (rule filterE_all_True)
  have sc: "scoreSkill sk p contextFiles = Inr (0, [''excluded by pattern''])"
    by (simp add: scoreSkill_def keywordStep_eq [OF assms(4)] fileStep_match [OF assms(1,2) ex])
  then show ?thesis by (simp add: pushSkill_def)
qed

text \<open>The third scenario of the specification, with a keyword hit on top.\<close>

theorem C2_exclusion_annuls_score_witness:
  "filterE (\<lambda>file. matchesFilePattern file (viaTriggers filePatterns sqlRule)) [''migrate_test.sql'']
     = Inr [''migrate_test.sql'']
   \<and> matchesFilePattern ''migrate_test.sql'' (viaTriggers excludePatterns sqlRule) = Inr True
   \<and> containsKeywords ''write sql'' (viaTriggers keywords sqlRule) = Inr True
   \<and> scoreSkill sqlRule ''write sql'' [''migrate_test.sql''] = Inr (0, [''excluded by pattern''])"
proof -
  have h1: "filterE (\<lambda>file. matchesFilePattern file (viaTriggers filePatterns sqlRule))
              [''migrate_test.sql''] = Inr [''migrate_test.sql'']"
    by code_simp
  have h2: "[''migrate_test.sql''] \<noteq> []" by simp
  have e: "matchesFilePattern ''migrate_test.sql'' (viaTriggers excludePatterns sqlRule) = Inr True"
    by code_simp
  then have h3: "\<forall>file \<in> set [''migrate_test.sql''].
                   matchesFilePattern file (viaTriggers excludePatterns sqlRule) = Inr True"
    by simp
  have h4: "containsKeywords ''write sql'' (viaTriggers keywords sqlRule) = Inr True"
    by code_simp
  from C2_exclusion_annuls_score [OF h1 h2 h3 h4] h1 e h4 show ?thesis by blast
qed

text \<open>
  C5. The score is the sum of the fixed weights: 2 and the reason \<open>keyword match\<close> for a
  keyword hit, 3 and \<open>intent match\<close> for an intent hit, 2 and \<open>file context (N files)\<close> for
  \<open>N > 0\<close> matching context files, which needs a context file to be supplied. Unless all
  matching files are excluded, the score is positive exactly when one of the three
  triggers matched.
\<close>

theorem C5_additive_score:
  assumes "containsKeywords p (viaTriggers keywords sk) = Inr keywordHit"
      and "intentHit = matchesIntent p (viaTriggers intentPatterns sk)"
      and "filterE (\<lambda>file. matchesFilePattern file (viaTriggers filePatterns sk)) contextFiles
             = Inr matchingFiles"
      and "filterE (\<lambda>file. matchesFilePattern file (viaTriggers excludePatterns sk)) matchingFiles
             = Inr excludedFiles"
      and "matchingFiles = [] \<or> length excludedFiles \<noteq> length matchingFiles"
  shows "scoreSkill sk p contextFiles =
           Inr ((if keywordHit then 2 else 0) + (if intentHit then 3 else 0)
                  + (if matchingFiles \<noteq> [] then 2 else 0),
                (if keywordHit then [''keyword match''] else [])
                  @ (if intentHit then [''intent match''] else [])
                  @ (if matchingFiles \<noteq> []
                     then [''file context ('' @ showNat (length matchingFiles) @ '' files)'']
                     else []))
         \<and> (matchingFiles \<noteq> [] \<longrightarrow> contextFiles \<noteq> [])
         \<and> (\<exists>s rs. scoreSkill sk p contextFiles = Inr (s, rs)
                \<and> (0 < s \<longleftrightarrow> keywordHit \<or> intentHit \<or> matchingFiles \<noteq> []))"
proof (cases "matchingFiles = []")
  case True
  have "fileStep sk contextFiles st = Inr st" for st
    using assms(3) True by (simp add: fileStep_no_match)
  then show ?thesis
    using True assms(2) by (simp add: scoreSkill_def keywordStep_eq [OF assms(1)] intentStep_eq)
next
  case False
  with assms(5) have ne: "length excludedFiles \<noteq> length matchingFiles" by simp
  have cf: "contextFiles \<noteq> []" using assms(3) False by auto
  show ?thesis
    using False ne cf assms(2)
    by (simp add: scoreSkill_def keywordStep_eq [OF assms(1)] intentStep_eq
          fileStep_match [OF assms(3) False assms(4)])
qed

text \<open>All three triggers hit; one of the two matching files is excluded.\<close>

theorem C5_additive_score_witness:
  "containsKeywords ''write sql'' (viaTriggers keywords sqlRule) = Inr True
   \<and> matchesIntent ''write sql'' (viaTriggers intentPatterns sqlRule)
   \<and> filterE (\<lambda>file. matchesFilePattern file (viaTriggers filePatterns sqlRule))
        [''migrate_test.sql'', ''schema.sql''] = Inr [''migrate_test.sql'', ''schema.sql'']
   \<and> filterE (\<lambda>file. matchesFilePattern file (viaTriggers excludePatterns sqlRule))
        [''migrate_test.sql'', ''schema.sql''] = Inr [''migrate_test.sql'']
   \<and> scoreSkill sqlRule ''write sql'' [''migrate_test.sql'', ''schema.sql'']
       = Inr (7, [''keyword match'', ''intent match'', ''file context (2 files)''])"
proof -
  have h1: "containsKeywords ''write sql'' (viaTriggers keywords sqlRule) = Inr True"
    by code_simp
  have h2: "True = matchesIntent ''write sql'' (viaTriggers intentPatterns sqlRule)"
    by code_simp
  have h3: "filterE (\<lambda>file. matchesFilePattern file (viaTriggers filePatterns sqlRule))
              [''migrate_test.sql'', ''schema.sql''] = Inr [''migrate_test.sql'', ''schema.sql'']"
    by code_simp
  have h4: "filterE (\<lambda>file. matchesFilePattern file (viaTriggers excludePatterns sqlRule))
              [''migrate_test.sql'', ''schema.sql''] = Inr [''migrate_test.sql'']"
    by code_simp
  have h5: "[''migrate_test.sql'', ''schema.sql''] = []
            \<or> length [''migrate_test.sql''] \<noteq> length [''migrate_test.sql'', ''schema.sql'']"
    by simp
  have n: "showNat (length [''migrate_test.sql'', ''schema.sql'']) = ''2''" by code_simp
  have c: "scoreSkill sqlRule ''write sql'' [''migrate_test.sql'', ''schema.sql'']
             = Inr (7, [''keyword match'', ''intent match'', ''file context (2 files)''])"
    using C5_additive_score [OF h1 h2 h3 h4 h5, THEN conjunct1] n by simp
  from c h1 h2 h3 h4 show ?thesis by blast
qed

text \<open>
  C9. With no context file, no file patterns, or no context file matching them, the exclude
  patterns are not consulted: a rule that differs in its exclude patterns only scores the
  same, and the score is the keyword and intent contribution unchanged.
\<close>

theorem C9_exclusion_needs_file_match:
  assumes "contextFiles = [] \<or> viaTriggers filePatterns sk = None
           \<or> filterE (\<lambda>file. matchesFilePattern file (viaTriggers filePatterns sk)) contextFiles
               = Inr []"
      and "viaTriggers keywords sk' = viaTriggers keywords sk"
      and "viaTriggers intentPatterns sk' = viaTriggers intentPatterns sk"
      and "viaTriggers filePatterns sk' = viaTriggers filePatterns sk"
  shows "scoreSkill sk' p contextFiles = scoreSkill sk p contextFiles
         \<and> (\<forall>keywordHit. containsKeywords p (viaTriggers keywords sk) = Inr keywordHit \<longrightarrow>
               scoreSkill sk p contextFiles =
                 Inr ((if keywordHit then 2 else 0)
                        + (if matchesIntent p (viaTriggers intentPatterns sk) then 3 else 0),
                      (if keywordHit then [''keyword match''] else [])
                        @ (if matchesIntent p (viaTriggers intentPatterns sk)
                           then [''intent match''] else [])))"
proof -
  have f: "fileStep sk contextFiles st = Inr st" for st
    using assms(1) by (rule fileStep_no_match)
  have f': "fileStep sk' contextFiles st = Inr st" for st
    using assms(1) by (intro fileStep_no_match) (simp add: assms(4))
  have k: "keywordStep sk' p st = keywordStep sk p st" for st
    by (simp add: keywordStep_def assms(2))
  have i: "intentStep sk' p st = intentStep sk p st" for st
    by (simp add: intentStep_def assms(3))
  have "scoreSkill sk' p contextFiles = scoreSkill sk p contextFiles"
    by (simp add: scoreSkill_def f f' k i split: sum.splits)
  moreover have "scoreSkill sk p contextFiles =
                 Inr ((if keywordHit then 2 else 0)
                        + (if matchesIntent p (viaTriggers intentPatterns sk) then 3 else 0),
                      (if keywordHit then [''keyword match''] else [])
                        @ (if matchesIntent p (viaTriggers intentPatterns sk)
                           then [''intent match''] else []))"
    if "containsKeywords p (viaTriggers keywords sk) = Inr keywordHit" for keywordHit
    by (simp add: scoreSkill_def keywordStep_eq [OF that] intentStep_eq f)
  ultimately show ?thesis by blast
qed
text \<open>A rule whose exclude pattern covers every path, but which has no file patterns.\<close>

theorem C9_exclusion_needs_file_match_witness:
  "viaTriggers filePatterns excludeOnlyRule = None
   \<and> scoreSkill (keywordRule ''sql-guidelines'' ''suggest'' [''sql'']) ''write sql'' [''migrate_test.sql'']
       = scoreSkill excludeOnlyRule ''write sql'' [''migrate_test.sql'']
   \<and> scoreSkill excludeOnlyRule ''write sql'' [''migrate_test.sql''] = Inr (2, [''keyword match''])"
proof -
  have h1: "[''migrate_test.sql''] = [] \<or> viaTriggers filePatterns excludeOnlyRule = None
            \<or> filterE (\<lambda>file. matchesFilePattern file (viaTriggers filePatterns excludeOnlyRule))
                 [''migrate_test.sql''] = Inr []"
    by code_simp
  have n: "viaTriggers filePatterns excludeOnlyRule = None" by code_simp
  have h2: "viaTriggers keywords (keywordRule ''sql-guidelines'' ''suggest'' [''sql''])
              = viaTriggers keywords excludeOnlyRule" by code_simp
  have h3: "viaTriggers intentPatterns (keywordRule ''sql-guidelines'' ''suggest'' [''sql''])
              = viaTriggers intentPatterns excludeOnlyRule" by code_simp
  have h4: "viaTriggers filePatterns (keywordRule ''sql-guidelines'' ''suggest'' [''sql''])
              = viaTriggers filePatterns excludeOnlyRule" by code_simp
  have k: "containsKeywords ''write sql'' (viaTriggers keywords excludeOnlyRule) = Inr True"
    by code_simp
  have i: "\<not> matchesIntent ''write sql'' (viaTriggers intentPatterns excludeOnlyRule)"
    by code_simp
  note c = C9_exclusion_needs_file_match [OF h1 h2 h3 h4, of "''write sql''"]
  have a: "scoreSkill (keywordRule ''sql-guidelines'' ''suggest'' [''sql'']) ''write sql''
             [''migrate_test.sql'']
           = scoreSkill excludeOnlyRule ''write sql'' [''migrate_test.sql'']"
    using c by (rule conjunct1)
  have b: "scoreSkill excludeOnlyRule ''write sql'' [''migrate_test.sql'']
             = Inr (2, [''keyword match''])"
    using c [THEN conjunct2, rule_format, OF k] i by simp
  from n a b show ?thesis by blast
qed

section \<open>The two buckets\<close>

lemma mset_insertWith: "mset (insertWith cmp x xs) = add_mset x (mset xs)"
  by (induction xs) auto

lemma mset_sortWith: "mset (sortWith cmp xs) = mset xs"
  by (induction xs) (auto simp: mset_insertWith)

lemma set_insertWith: "set (insertWith cmp x xs) = insert x (set xs)"
  using mset_insertWith [of cmp x xs] by (metis set_mset_add_mset_insert set_mset_mset)

lemma set_sortWith: "set (sortWith cmp xs) = set xs"
  using mset_sortWith [of cmp xs] by (metis set_mset_mset)

lemma length_sortWith: "length (sortWith cmp xs) = length xs"
  using mset_sortWith [of cmp xs] by (metis size_mset)

lemma distinct_map_sortWith: "distinct (map f (sortWith cmp xs)) = distinct (map f xs)"
proof -
  have "mset (map f (sortWith cmp xs)) = mset (map f xs)"
    by (simp add: mset_sortWith)
  then show ?thesis by (rule mset_eq_imp_distinct_iff)
qed

lemma bucket_Nil [simp]: "bucket P [] sts = []" "bucket P rs [] = []"
  by (simp_all add: bucket_def)

lemma bucket_Cons [simp]:
  "bucket P (sk # rs) (st # sts) =
     (if 0 < fst st \<and> P sk then mkSuggestion sk st # bucket P rs sts else bucket P rs sts)"
  by (simp add: bucket_def)

lemma length_bucket: "length (bucket P rs sts) \<le> length rs"
  by (simp add: bucket_def) (metis length_filter_le length_zip min.cobounded1 order_trans)

lemma length_bucket_compl:
  "length (bucket P rs sts) + length (bucket (\<lambda>sk. \<not> P sk) rs sts) \<le> length rs"
proof (induction rs arbitrary: sts)
  case Nil
  then show ?case by simp
next
  case (Cons sk rs)
  then show ?case by (cases sts) (auto simp: le_SucI)
qed

lemma bucket_names_subseq: "subseq (map skillName (bucket P rs sts)) (map name rs)"
proof (induction rs arbitrary: sts)
  case Nil
  then show ?case by simp
next
  case (Cons sk rs)
  show ?case
  proof (cases sts)
    case Nil
    then show ?thesis by simp
  next
    case (Cons st sts')
    with Cons.IH [of sts'] show ?thesis by (auto simp: mkSuggestion_def)
  qed
qed

lemma bucket_member:
  "x \<in> set (bucket P rs sts) \<Longrightarrow>
     \<exists>sk st. sk \<in> set rs \<and> P sk \<and> 0 < fst st \<and> x = mkSuggestion sk st"
  by (fastforce simp: bucket_def dest: set_zip_leftD)

lemma analyzeLoop_buckets:
  "analyzeLoop rs p contextFiles a = Inr a' \<Longrightarrow>
   \<exists>sts. map (\<lambda>sk. scoreSkill sk p contextFiles) rs = map Inr sts
        \<and> blockingSkills a' = blockingSkills a @ bucket (\<lambda>sk. mode sk = ''block'') rs sts
        \<and> suggestions a' = suggestions a @ bucket (\<lambda>sk. mode sk \<noteq> ''block'') rs sts"
proof (induction rs arbitrary: a)
  case Nil
  then show ?case by simp
next
  case (Cons sk rs)
  from Cons.prems obtain st where st: "scoreSkill sk p contextFiles = Inr st"
    and loop: "analyzeLoop rs p contextFiles (pushSkill sk st a) = Inr a'"
    by (auto split: sum.splits)
  from Cons.IH [OF loop] obtain sts
    where sts: "map (\<lambda>sk. scoreSkill sk p contextFiles) rs = map Inr sts"
      and b: "blockingSkills a' = blockingSkills (pushSkill sk st a) @ bucket (\<lambda>sk. mode sk = ''block'') rs sts"
      and s: "suggestions a' = suggestions (pushSkill sk st a) @ bucket (\<lambda>sk. mode sk \<noteq> ''block'') rs sts"
    by blast
  have "map (\<lambda>sk. scoreSkill sk p contextFiles) (sk # rs) = map Inr (st # sts)"
    using st sts by simp
  moreover have "blockingSkills a' = blockingSkills a @ bucket (\<lambda>sk. mode sk = ''block'') (sk # rs) (st # sts)"
    using b by (simp add: pushSkill_def)
  moreover have "suggestions a' = suggestions a @ bucket (\<lambda>sk. mode sk \<noteq> ''block'') (sk # rs) (st # sts)"
    using s by (simp add: pushSkill_def)
  ultimately show ?case by blast
qed

lemma matchLoopTs_subseq:
  "matchLoopTs lp entries acc = Inr ms \<Longrightarrow>
   \<exists>new. ms = acc @ new \<and> subseq (map (\<lambda>m. (matchedName m, config m)) new) entries"
proof (induction entries arbitrary: acc)
  case Nil
  then show ?case by simp
next
  case (Cons entry entries)
  obtain nm cfg where entry: "entry = (nm, cfg)" by (cases entry)
  from Cons.prems entry consider
      (skip) "matchLoopTs lp entries acc = Inr ms"
    | (hit) mt where "matchLoopTs lp entries (acc @ [\<lparr> matchedName = nm, matchType = mt, config = cfg \<rparr>]) = Inr ms"
    by (auto split: option.splits if_splits sum.splits)
  then show ?case
  proof cases
    case skip
    from Cons.IH [OF skip] show ?thesis by (auto simp: entry)
  next
    case hit
    from Cons.IH [OF hit] obtain new where
      "ms = (acc @ [\<lparr> matchedName = nm, matchType = mt, config = cfg \<rparr>]) @ new"
      "subseq (map (\<lambda>m. (matchedName m, config m)) new) entries" by blast
    then show ?thesis
      by (intro exI [of _ "\<lparr> matchedName = nm, matchType = mt, config = cfg \<rparr> # new"]) (simp add: entry)
  qed
qed


lemma sMode_mkSuggestion [simp]: "sMode (mkSuggestion sk st) = mode sk"
  and skillName_mkSuggestion [simp]: "skillName (mkSuggestion sk st) = name sk"
  and score_mkSuggestion [simp]: "score (mkSuggestion sk st) = fst st"
  by (simp_all add: mkSuggestion_def)

lemma buckets_disjoint:
  "set (bucket P rs sts) \<inter> set (bucket (\<lambda>sk. \<not> P sk) rs sts') = {}" if "\<And>sk sk'. P sk \<Longrightarrow> \<not> P sk' \<Longrightarrow> mode sk \<noteq> mode sk'"
proof -
  have False if x: "x \<in> set (bucket P rs sts)" and y: "x \<in> set (bucket (\<lambda>sk. \<not> P sk) rs sts')" for x
  proof -
    from bucket_member [OF x] obtain sk st where 1: "P sk" "x = mkSuggestion sk st" by blast
    from bucket_member [OF y] obtain sk' st' where 2: "\<not> P sk'" "x = mkSuggestion sk' st'" by blast
    from 1 2 have "mode sk = mode sk'" by (metis sMode_mkSuggestion)
    with \<open>\<And>sk sk'. P sk \<Longrightarrow> \<not> P sk' \<Longrightarrow> mode sk \<noteq> mode sk'\<close> 1 2 show False by blast
  qed
  then show ?thesis by blast
qed

lemma subseq_distinct: "subseq xs ys \<Longrightarrow> distinct ys \<Longrightarrow> distinct xs"
  by (induction rule: list_emb.induct) (auto dest: list_emb_set)

lemma bucket_names_distinct:
  assumes "distinct (map name rs)"
  shows "distinct (map skillName (bucket P rs sts @ bucket (\<lambda>sk. \<not> P sk) rs sts))"
proof -
  have d1: "distinct (map skillName (bucket Q rs sts))" for Q
    using bucket_names_subseq [of Q rs sts] assms by (rule subseq_distinct)
  have "name sk \<noteq> name sk'" if "sk \<in> set rs" "sk' \<in> set rs" "P sk" "\<not> P sk'" for sk sk'
  proof
    assume "name sk = name sk'"
    with assms that(1,2) have "sk = sk'" by (auto simp: distinct_map dest: inj_onD)
    with that(3,4) show False by simp
  qed
  then have "set (map skillName (bucket P rs sts)) \<inter> set (map skillName (bucket (\<lambda>sk. \<not> P sk) rs sts)) = {}"
    by (auto dest!: bucket_member) 
  with d1 show ?thesis by simp
qed

text \<open>
  C10. Every rule contributes at most one result object: the blocking bucket holds the
  rules with a positive score and mode \<open>block\<close>, the suggested bucket (before and after
  sorting) the rules with a positive score and any other mode, each in one object; the
  buckets are disjoint and, when rule names are distinct, no name occurs twice. In the
  TypeScript hook the matched skills are a subsequence of the rule entries, split by the
  two filters into disjoint lists.
\<close>

theorem C10_one_result_per_rule:
  "(analyzePrompt rulesFile p contextFiles = (log, Inr a)
      \<longrightarrow> (\<exists>sts. map (\<lambda>sk. scoreSkill sk p contextFiles) (skillsOrNone (fst (loadSkillRules rulesFile)))
                   = map Inr sts
                \<and> blockingSkills a
                   = bucket (\<lambda>sk. mode sk = ''block'') (skillsOrNone (fst (loadSkillRules rulesFile))) sts
                \<and> suggestions a
                   = sortWith byScore
                       (bucket (\<lambda>sk. mode sk \<noteq> ''block'') (skillsOrNone (fst (loadSkillRules rulesFile))) sts))
        \<and> length (blockingSkills a) + length (suggestions a)
             \<le> length (skillsOrNone (fst (loadSkillRules rulesFile)))
        \<and> set (blockingSkills a) \<inter> set (suggestions a) = {}
        \<and> (distinct (map name (skillsOrNone (fst (loadSkillRules rulesFile))))
             \<longrightarrow> distinct (map skillName (blockingSkills a @ suggestions a))))
   \<and> (matchLoopTs lowerPrompt entries [] = Inr matchedSkills
      \<longrightarrow> subseq (map (\<lambda>m. (matchedName m, config m)) matchedSkills) entries
        \<and> length matchedSkills \<le> length entries
        \<and> length (blockingSkillsTs matchedSkills) + length (suggestedSkillsTs matchedSkills)
             = length matchedSkills
        \<and> set (blockingSkillsTs matchedSkills) \<inter> set (suggestedSkillsTs matchedSkills) = {})"
proof (intro conjI impI)
  assume ap: "analyzePrompt rulesFile p contextFiles = (log, Inr a)"
  define rs where "rs = skillsOrNone (fst (loadSkillRules rulesFile))"
  from ap obtain a0 where
    loop: "analyzeLoop rs p contextFiles \<lparr> suggestions = [], blockingSkills = [] \<rparr> = Inr a0"
    and a: "a = a0\<lparr> suggestions := sortWith byScore (suggestions a0) \<rparr>"
    by (auto simp: analyzePrompt_def rs_def split: prod.splits sum.splits)
  from analyzeLoop_buckets [OF loop] obtain sts where
    sts: "map (\<lambda>sk. scoreSkill sk p contextFiles) rs = map Inr sts"
    and b0: "blockingSkills a0 = bucket (\<lambda>sk. mode sk = ''block'') rs sts"
    and s0: "suggestions a0 = bucket (\<lambda>sk. mode sk \<noteq> ''block'') rs sts"
    by auto
  have b: "blockingSkills a = bucket (\<lambda>sk. mode sk = ''block'') rs sts"
    and s: "suggestions a = sortWith byScore (bucket (\<lambda>sk. mode sk \<noteq> ''block'') rs sts)"
    using a b0 s0 by simp_all
  show "\<exists>sts. map (\<lambda>sk. scoreSkill sk p contextFiles) rs = map Inr sts
          \<and> blockingSkills a = bucket (\<lambda>sk. mode sk = ''block'') rs sts
          \<and> suggestions a = sortWith byScore (bucket (\<lambda>sk. mode sk \<noteq> ''block'') rs sts)"
    using sts b s by blast
  show "length (blockingSkills a) + length (suggestions a) \<le> length rs"
    using length_bucket_compl [of "\<lambda>sk. mode sk = ''block''" rs sts]
    by (simp add: b s length_sortWith)
  show "set (blockingSkills a) \<inter> set (suggestions a) = {}"
    using buckets_disjoint [of "\<lambda>sk. mode sk = ''block''" rs sts sts]
    by (simp add: b s set_sortWith)
  show "distinct (map skillName (blockingSkills a @ suggestions a))" if "distinct (map name rs)"
  proof -
    have "mset (map skillName (blockingSkills a @ suggestions a))
            = mset (map skillName (bucket (\<lambda>sk. mode sk = ''block'') rs sts
                                   @ bucket (\<lambda>sk. \<not> mode sk = ''block'') rs sts))"
      by (simp add: b s mset_sortWith)
    from mset_eq_imp_distinct_iff [OF this] bucket_names_distinct [OF that]
    show ?thesis by blast
  qed
next
  assume loop: "matchLoopTs lowerPrompt entries [] = Inr matchedSkills"
  from matchLoopTs_subseq [OF loop]
  show sub: "subseq (map (\<lambda>m. (matchedName m, config m)) matchedSkills) entries" by simp
  from list_emb_length [OF sub] show "length matchedSkills \<le> length entries" by simp
  show "length (blockingSkillsTs matchedSkills) + length (suggestedSkillsTs matchedSkills)
          = length matchedSkills"
    by (simp add: blockingSkillsTs_def suggestedSkillsTs_def sum_length_filter_compl)
  show "set (blockingSkillsTs matchedSkills) \<inter> set (suggestedSkillsTs matchedSkills) = {}"
    by (auto simp: blockingSkillsTs_def suggestedSkillsTs_def)
qed

text \<open>Three rules, of which a blocking and a suggesting one match; two entries of the hook.\<close>

theorem C10_one_result_per_rule_witness:
  "analyzePrompt mixedRules ''deploy it'' []
     = ([], Inr \<lparr> suggestions = [mkSuggestion (keywordRule ''tips'' ''suggest'' [''deploy'']) (2, [''keyword match''])],
                  blockingSkills = [mkSuggestion (keywordRule ''guard'' ''block'' [''deploy'']) (2, [''keyword match''])] \<rparr>)
   \<and> length [mkSuggestion (keywordRule ''guard'' ''block'' [''deploy'']) (2, [''keyword match''])]
       + length [mkSuggestion (keywordRule ''tips'' ''suggest'' [''deploy'']) (2, [''keyword match''])]
       \<le> length (skillsOrNone (fst (loadSkillRules mixedRules)))
   \<and> matchLoopTs ''deploy it'' [(''guard'', ruleTs ''block'' [''deploy''] []), (''tips'', ruleTs ''suggest'' [''zebra''] [''dep.oy''])] []
       = Inr [\<lparr> matchedName = ''guard'', matchType = KeywordMatch, config = ruleTs ''block'' [''deploy''] [] \<rparr>,
              \<lparr> matchedName = ''tips'', matchType = IntentMatch, config = ruleTs ''suggest'' [''zebra''] [''dep.oy''] \<rparr>]
   \<and> length [\<lparr> matchedName = ''guard'', matchType = KeywordMatch, config = ruleTs ''block'' [''deploy''] [] \<rparr>,
              \<lparr> matchedName = ''tips'', matchType = IntentMatch, config = ruleTs ''suggest'' [''zebra''] [''dep.oy''] \<rparr>]
       \<le> length [(''guard'', ruleTs ''block'' [''deploy''] []), (''tips'', ruleTs ''suggest'' [''zebra''] [''dep.oy''])]"
proof -
  have h1: "analyzePrompt mixedRules ''deploy it'' []
     = ([], Inr \<lparr> suggestions = [mkSuggestion (keywordRule ''tips'' ''suggest'' [''deploy'']) (2, [''keyword match''])],
                  blockingSkills = [mkSuggestion (keywordRule ''guard'' ''block'' [''deploy'']) (2, [''keyword match''])] \<rparr>)"
    by code_simp
  have h2: "matchLoopTs ''deploy it'' [(''guard'', ruleTs ''block'' [''deploy''] []), (''tips'', ruleTs ''suggest'' [''zebra''] [''dep.oy''])] []
       = Inr [\<lparr> matchedName = ''guard'', matchType = KeywordMatch, config = ruleTs ''block'' [''deploy''] [] \<rparr>,
              \<lparr> matchedName = ''tips'', matchType = IntentMatch, config = ruleTs ''suggest'' [''zebra''] [''dep.oy''] \<rparr>]"
    by code_simp
  note c = C10_one_result_per_rule [of mixedRules "''deploy it''" "[]" "[]" _ "''deploy it''"
      "[(''guard'', ruleTs ''block'' [''deploy''] []), (''tips'', ruleTs ''suggest'' [''zebra''] [''dep.oy''])]"]
  from c [THEN conjunct1, rule_format, OF h1] c [THEN conjunct2, rule_format, OF h2] h1 h2
  show ?thesis by simp
qed

section \<open>Surfacing of the suggested bucket\<close>

text \<open>
  The suggested bucket comes out of the sort in descending score order, results of equal
  score in the order of their rules, and the message never lists more than three of them.
\<close>

lemma byScore_le: "byScore x y \<le> 0 \<longleftrightarrow> score y \<le> score x"
  by (simp add: byScore_def)

lemma sorted_insertWith_byScore:
  "sorted_wrt (\<lambda>a b. score b \<le> score a) xs \<Longrightarrow>
   sorted_wrt (\<lambda>a b. score b \<le> score a) (insertWith byScore x xs)"
proof (induction xs)
  case Nil
  then show ?case by simp
next
  case (Cons y ys)
  show ?case
  proof (cases "byScore x y \<le> 0")
    case True
    with Cons.prems show ?thesis by (auto simp: byScore_le)
  next
    case False
    then have "score x \<le> score y" by (simp add: byScore_le)
    with False Cons show ?thesis by (auto simp: set_insertWith)
  qed
qed

lemma sorted_sortWith_byScore: "sorted_wrt (\<lambda>a b. score b \<le> score a) (sortWith byScore xs)"
  by (induction xs) (simp_all add: sorted_insertWith_byScore)

lemma filter_insertWith_byScore:
  "filter (\<lambda>s. score s = k) (insertWith byScore x xs)
     = (if score x = k then x # filter (\<lambda>s. score s = k) xs else filter (\<lambda>s. score s = k) xs)"
  by (induction xs) (auto simp: byScore_le)

lemma stable_sortWith_byScore:
  "filter (\<lambda>s. score s = k) (sortWith byScore xs) = filter (\<lambda>s. score s = k) xs"
  by (induction xs) (simp_all add: filter_insertWith_byScore)

lemma suggestionPart_at_most_three: "suggestionPart ss \<noteq> [] \<Longrightarrow> length ss \<le> 3"
  by (simp add: suggestionPart_def split: if_splits)

lemma analyzePrompt_suggestions_sorted:
  assumes "analyzePrompt rulesFile p contextFiles = (log, Inr a)"
  shows "sorted_wrt (\<lambda>x y. score y \<le> score x) (suggestions a)"
  using assms
  by (auto simp: analyzePrompt_def sorted_sortWith_byScore split: prod.splits sum.splits)

text \<open>
  C1. Four rules of mode \<open>suggest\<close> match the prompt, so the suggested bucket holds four
  results. The claim has the three with the highest scores surfaced; the engine prints
  nothing at all, because the suggestion section is only written when the bucket holds at
  most three results.
\<close>

theorem C1_four_suggestions_none_surfaced:
  "map skillName (case snd (analyzePrompt fourSuggestRules ''deploy it'' []) of
                    Inr a \<Rightarrow> suggestions a | Inl e \<Rightarrow> [])
     = [''s1'', ''s2'', ''s3'', ''s4'']
   \<and> main (Some (promptOnly ''deploy it'')) fourSuggestRules
     = \<lparr> stdout = [], stderr = [], exitCode = 0 \<rparr>"
  by code_simp

section \<open>The entry points\<close>

lemma exitCode_main: "exitCode (main stdin rulesFile) = 0"
  by (simp add: main_def Let_def split: option.splits prod.splits sum.splits)

lemma analyzePrompt_no_rules:
  "rulesFile = Missing \<or> rulesFile = Corrupt \<Longrightarrow>
   snd (analyzePrompt rulesFile p contextFiles) = Inr \<lparr> suggestions = [], blockingSkills = [] \<rparr>"
  by (auto simp: analyzePrompt_def loadSkillRules_def skillsOrNone_def)

lemma analyzePrompt_Missing: "analyzePrompt Missing p contextFiles
    = ([], Inr \<lparr> suggestions = [], blockingSkills = [] \<rparr>)"
  by (simp add: analyzePrompt_def loadSkillRules_def skillsOrNone_def)

lemma analyzePrompt_Corrupt: "analyzePrompt Corrupt p contextFiles
    = ([LoadError], Inr \<lparr> suggestions = [], blockingSkills = [] \<rparr>)"
  by (simp add: analyzePrompt_def loadSkillRules_def skillsOrNone_def)

lemma formatMessage_empty: "formatMessage \<lparr> suggestions = [], blockingSkills = [] \<rparr> = None"
  by (simp add: formatMessage_def)

lemma readRulesTs_unparsed:
  "(\<forall>r. projectFile \<noteq> Parsed r) \<Longrightarrow> (\<forall>r. globalFile \<noteq> Parsed r) \<Longrightarrow>
   \<exists>e. readRulesTs (rulesPathTs projectDirSet projectFile globalFile) = Inl e"
  by (cases projectFile; cases globalFile) (auto simp: readRulesTs_def rulesPathTs_def)

text \<open>
  As the claim C6 states it, a missing or unparsable rule collection gives an empty decision
  and no failure. The TypeScript hook, the variant with the two candidate locations, reads
  the chosen file without a guard: with no file at either location, or an unparsable
  project file and no global one, the exception reaches the handler of \<open>main\<close>, which
  exits with status 1.
\<close>

theorem C6_hook_fails_without_rules_counterexample:
  "main_ts (Some (promptOnly ''deploy it'')) True Missing Missing
     = \<lparr> stdout = [], stderr = [HookErrorTs IOError], exitCode = 1 \<rparr>
   \<and> main_ts (Some (promptOnly ''deploy it'')) True Corrupt Missing
     = \<lparr> stdout = [], stderr = [HookErrorTs SyntaxError], exitCode = 1 \<rparr>"
  by code_simp

text \<open>
  C6, amended. The engine reads one location; when no parsable rule collection is there
  its loader returns the empty collection, the decision is empty, nothing is printed and the
  process exits with status 0. The TypeScript hook reads the project file if it exists
  and the global file otherwise; when neither location holds a parsable collection the
  exception is caught in \<open>main\<close> and logged, nothing is printed, and the exit status is 1.
\<close>

theorem C6_no_rule_collection:
  "(rulesFile = Missing \<or> rulesFile = Corrupt
      \<longrightarrow> fst (loadSkillRules rulesFile) = \<lparr> skills = Some [] \<rparr>
        \<and> snd (analyzePrompt rulesFile p contextFiles)
            = Inr \<lparr> suggestions = [], blockingSkills = [] \<rparr>
        \<and> stdout (main stdin rulesFile) = []
        \<and> exitCode (main stdin rulesFile) = 0)
   \<and> ((\<forall>r. projectFile \<noteq> Parsed r) \<and> (\<forall>r. globalFile \<noteq> Parsed r)
      \<longrightarrow> (\<exists>e. main_ts stdin projectDirSet projectFile globalFile
                 = \<lparr> stdout = [], stderr = [HookErrorTs e], exitCode = 1 \<rparr>))"
proof (intro conjI impI)
  assume f: "rulesFile = Missing \<or> rulesFile = Corrupt"
  then show "fst (loadSkillRules rulesFile) = \<lparr> skills = Some [] \<rparr>"
    by (auto simp: loadSkillRules_def)
  show a: "snd (analyzePrompt rulesFile p contextFiles)
             = Inr \<lparr> suggestions = [], blockingSkills = [] \<rparr>"
    using f by (rule analyzePrompt_no_rules)
  show "exitCode (main stdin rulesFile) = 0" by (rule exitCode_main)
  from f show "stdout (main stdin rulesFile) = []"
    by (auto simp: main_def Let_def formatMessage_empty analyzePrompt_Missing analyzePrompt_Corrupt
             split: option.splits)
next
  assume "(\<forall>r. projectFile \<noteq> Parsed r) \<and> (\<forall>r. globalFile \<noteq> Parsed r)"
  then obtain e where "readRulesTs (rulesPathTs projectDirSet projectFile globalFile) = Inl e"
    using readRulesTs_unparsed by blast
  then show "\<exists>e. main_ts stdin projectDirSet projectFile globalFile
                 = \<lparr> stdout = [], stderr = [HookErrorTs e], exitCode = 1 \<rparr>"
    by (auto simp: main_ts_def tryTs_def split: option.splits)
qed

text \<open>An unreadable rule file for the engine; an unparsable project file and no global file for the hook.\<close>

theorem C6_no_rule_collection_witness:
  "snd (analyzePrompt Corrupt ''deploy it'' [''a.sql''])
     = Inr \<lparr> suggestions = [], blockingSkills = [] \<rparr>
   \<and> stdout (main (Some (promptOnly ''deploy it'')) Corrupt) = []
   \<and> exitCode (main (Some (promptOnly ''deploy it'')) Corrupt) = 0
   \<and> (\<exists>e. main_ts (Some (promptOnly ''deploy it'')) True Corrupt Missing
            = \<lparr> stdout = [], stderr = [HookErrorTs e], exitCode = 1 \<rparr>)"
proof -
  note c = C6_no_rule_collection [where rulesFile = Corrupt and p = "''deploy it''"
      and contextFiles = "[''a.sql'']" and stdin = "Some (promptOnly ''deploy it'')"
      and projectFile = Corrupt and globalFile = Missing and projectDirSet = True]
  have h1: "(Corrupt :: rules rulesFile) = Missing \<or> (Corrupt :: rules rulesFile) = Corrupt" by simp
  have h2: "(\<forall>r. (Corrupt :: skillRules rulesFile) \<noteq> Parsed r)
            \<and> (\<forall>r. (Missing :: skillRules rulesFile) \<noteq> Parsed r)" by simp
  from c [THEN conjunct1, rule_format, OF h1] c [THEN conjunct2, rule_format, OF h2]
  show ?thesis by blast
qed

text \<open>
  As the claim C7 states it, an absent or empty prompt ends the invocation with success
  before any matching. The TypeScript hook has no such test: an absent prompt raises
  (status 1), an empty prompt goes on to read the rules (status 1 when there are none)
  and is matched against them, here by a blocking rule whose intent pattern matches any text.
\<close>

theorem C7_hook_no_short_circuit_counterexample:
  "main_ts (Some noPrompt) False Missing (rulesTs [])
     = \<lparr> stdout = [], stderr = [HookErrorTs TypeError], exitCode = 1 \<rparr>
   \<and> main_ts (Some (promptOnly [])) False Missing Missing
     = \<lparr> stdout = [], stderr = [HookErrorTs IOError], exitCode = 1 \<rparr>
   \<and> main_ts (Some (promptOnly [])) False Missing (rulesTs [(''guard'', ruleTs ''block'' [] [''.*''])])
     = \<lparr> stdout = [outputTs [\<lparr> matchedName = ''guard'', matchType = IntentMatch,
                                   config = ruleTs ''block'' [] [''.*''] \<rparr>]],
         stderr = [], exitCode = 0 \<rparr>"
  by code_simp

text \<open>
  C7, amended. In the engine an absent or empty prompt ends the invocation before the
  rules are loaded: nothing printed, nothing logged, status 0, whatever the rule file and
  the context files. In the TypeScript hook an absent prompt raises a type error that is
  caught and logged, with exit status 1.
\<close>

theorem C7_empty_prompt:
  "(prompt input = None \<or> prompt input = Some []
      \<longrightarrow> main (Some input) rulesFile = \<lparr> stdout = [], stderr = [], exitCode = 0 \<rparr>)
   \<and> (prompt input = None
      \<longrightarrow> main_ts (Some input) projectDirSet projectFile globalFile
           = \<lparr> stdout = [], stderr = [HookErrorTs TypeError], exitCode = 1 \<rparr>)"
  by (auto simp: main_def main_ts_def tryTs_def Let_def)

text \<open>The empty prompt and the absent prompt, on rule files that would match or fail to load.\<close>

theorem C7_empty_prompt_witness:
  "main (Some (promptOnly [])) fourSuggestRules = \<lparr> stdout = [], stderr = [], exitCode = 0 \<rparr>
   \<and> main (Some noPrompt) Corrupt = \<lparr> stdout = [], stderr = [], exitCode = 0 \<rparr>
   \<and> main_ts (Some noPrompt) True Missing (rulesTs [])
       = \<lparr> stdout = [], stderr = [HookErrorTs TypeError], exitCode = 1 \<rparr>"
proof -
  have h1: "prompt (promptOnly []) = None \<or> prompt (promptOnly []) = Some []"
    by (simp add: promptOnly_def)
  have h2: "prompt noPrompt = None" by (simp add: noPrompt_def)
  from C7_empty_prompt [where input = "promptOnly []" and rulesFile = fourSuggestRules,
         THEN conjunct1, rule_format, OF h1]
       C7_empty_prompt [where input = noPrompt and rulesFile = Corrupt,
         THEN conjunct1, rule_format, OF disjI1, OF h2]
       C7_empty_prompt [where input = noPrompt and projectDirSet = True and projectFile = Missing
         and globalFile = "rulesTs []", THEN conjunct2, rule_format, OF h2]
  show ?thesis by blast
qed

text \<open>
  As the claim C8 states it, an exception in the matching pipeline ends in a success exit
  status. In the TypeScript hook an intent pattern that is not a regular expression raises,
  and the handler exits with status 1.
\<close>

theorem C8_hook_exits_1_counterexample:
  "main_ts (Some (promptOnly ''use c++'')) False Missing
       (rulesTs [(''cpp'', ruleTs ''suggest'' [] [''c++''])])
     = \<lparr> stdout = [], stderr = [HookErrorTs SyntaxError], exitCode = 1 \<rparr>"
  by code_simp

text \<open>
  C8, amended. In the engine an exception raised while the rules are scored is caught in
  \<open>main\<close> and logged after whatever the loader logged, nothing is printed and the exit
  status is 0, as it is on every run of the engine. In the TypeScript hook an exception of
  the matching loop is caught and logged and nothing is printed, but the exit status is 1.
\<close>

theorem C8_exception_caught:
  "(snd (analyzePrompt rulesFile p contextFiles) = Inl e \<and> p \<noteq> []
      \<longrightarrow> main (Some \<lparr> prompt = Some p, files = Some contextFiles, context_files = other \<rparr>) rulesFile
           = \<lparr> stdout = [],
               stderr = fst (analyzePrompt rulesFile p contextFiles) @ [HookError e],
               exitCode = 0 \<rparr>)
   \<and> exitCode (main stdin rulesFile) = 0
   \<and> (matchLoopTs (toLowerCase p) entries [] = Inl e
        \<and> rulesPathTs projectDirSet projectFile globalFile
            = Parsed \<lparr> version = v, skillEntries = Some entries \<rparr>
      \<longrightarrow> main_ts (Some \<lparr> prompt = Some p, files = fs, context_files = other \<rparr>)
             projectDirSet projectFile globalFile
           = \<lparr> stdout = [], stderr = [HookErrorTs e], exitCode = 1 \<rparr>)"
proof (intro conjI impI)
  assume "snd (analyzePrompt rulesFile p contextFiles) = Inl e \<and> p \<noteq> []"
  then show "main (Some \<lparr> prompt = Some p, files = Some contextFiles, context_files = other \<rparr>) rulesFile
           = \<lparr> stdout = [],
               stderr = fst (analyzePrompt rulesFile p contextFiles) @ [HookError e],
               exitCode = 0 \<rparr>"
    by (cases "analyzePrompt rulesFile p contextFiles") (simp add: main_def)
next
  show "exitCode (main stdin rulesFile) = 0" by (rule exitCode_main)
next
  assume "matchLoopTs (toLowerCase p) entries [] = Inl e
        \<and> rulesPathTs projectDirSet projectFile globalFile
            = Parsed \<lparr> version = v, skillEntries = Some entries \<rparr>"
  then show "main_ts (Some \<lparr> prompt = Some p, files = fs, context_files = other \<rparr>)
             projectDirSet projectFile globalFile
           = \<lparr> stdout = [], stderr = [HookErrorTs e], exitCode = 1 \<rparr>"
    by (simp add: main_ts_def tryTs_def readRulesTs_def)
qed

text \<open>The keyword and the intent pattern \<^verbatim>\<open>c++\<close>, which is not a regular expression.\<close>

theorem C8_exception_caught_witness:
  "snd (analyzePrompt badKeywordRules ''use c++'' []) = Inl SyntaxError
   \<and> main (Some \<lparr> prompt = Some ''use c++'', files = Some [], context_files = None \<rparr>) badKeywordRules
       = \<lparr> stdout = [], stderr = [HookError SyntaxError], exitCode = 0 \<rparr>
   \<and> matchLoopTs (toLowerCase ''use c++'') [(''cpp'', ruleTs ''suggest'' [] [''c++''])] [] = Inl SyntaxError
   \<and> main_ts (Some \<lparr> prompt = Some ''use c++'', files = None, context_files = None \<rparr>) False Missing
         (rulesTs [(''cpp'', ruleTs ''suggest'' [] [''c++''])])
       = \<lparr> stdout = [], stderr = [HookErrorTs SyntaxError], exitCode = 1 \<rparr>"
proof -
  have a: "analyzePrompt badKeywordRules ''use c++'' [] = ([], Inl SyntaxError)" by code_simp
  then have h1: "snd (analyzePrompt badKeywordRules ''use c++'' []) = Inl SyntaxError \<and> ''use c++'' \<noteq> []"
    by simp
  have m: "matchLoopTs (toLowerCase ''use c++'') [(''cpp'', ruleTs ''suggest'' [] [''c++''])] [] = Inl SyntaxError"
    by code_simp
  have r: "rulesPathTs False Missing (rulesTs [(''cpp'', ruleTs ''suggest'' [] [''c++''])])
             = Parsed \<lparr> version = ''1.0'', skillEntries = Some [(''cpp'', ruleTs ''suggest'' [] [''c++''])] \<rparr>"
    by (simp add: rulesPathTs_def rulesTs_def)
  note c = C8_exception_caught [where rulesFile = badKeywordRules and p = "''use c++''"
      and contextFiles = "[]" and e = SyntaxError and other = None
      and entries = "[(''cpp'', ruleTs ''suggest'' [] [''c++''])]" and projectDirSet = False
      and projectFile = Missing
      and globalFile = "rulesTs [(''cpp'', ruleTs ''suggest'' [] [''c++''])]"
      and v = "''1.0''" and fs = None]
  from c [THEN conjunct1, rule_format, OF h1] a
  have j: "main (Some \<lparr> prompt = Some ''use c++'', files = Some [], context_files = None \<rparr>) badKeywordRules
       = \<lparr> stdout = [], stderr = [HookError SyntaxError], exitCode = 0 \<rparr>" by simp
  from c [THEN conjunct2, THEN conjunct2, rule_format, OF conjI, OF m r]
  have t: "main_ts (Some \<lparr> prompt = Some ''use c++'', files = None, context_files = None \<rparr>) False Missing
         (rulesTs [(''cpp'', ruleTs ''suggest'' [] [''c++''])])
       = \<lparr> stdout = [], stderr = [HookErrorTs SyntaxError], exitCode = 1 \<rparr>" .
  from h1 j m t show ?thesis by blast
qed

end
